theory Spec2Isabelle
  imports Main
begin

section \<open>The process, its environment and what it does to the outside\<close>

text \<open>
  Go strings are byte sequences; \<^typ>\<open>string\<close> is a list of 8-bit characters, so the
  two agree byte for byte. The process environment is a table from names to values; a
  name that is not set has no entry.
\<close>

type_synonym env_table = "string \<rightharpoonup> string"

text \<open>
  \<open>exec.Cmd\<close>, as \<open>exec.Command\<close> fills it: the file to run, the argument vector
  (whose first entry is the name the command was built from), and the error of a failed
  lookup of that name, if there was one.
\<close>

record Cmd =
  Path :: string
  Args :: "string list"
  Err :: "string option"

text \<open>
  The two \<open>log.Printf\<close> calls of \<open>patchFromCommand\<close>, each with the arguments
  handed to its format string: the line for
  \<open>[WARNING] patchenv: invalid output line: %s\<close>, and key, value and error text for
  \<open>[WARNING] patchenv: os.Setenv(%q, %q) returned error: %s\<close>.
\<close>

datatype log_entry =
    InvalidOutputLine string
  | SetenvReturnedError string string string

text \<open>
  Everything the call does besides changing the environment, in the order it happens:
  calling \<open>cmd.Run()\<close> on a command (\<open>Run\<close>; whether a process starts is told by
  what \<open>cmd.Run()\<close> returns), writing to \<open>os.Stdout\<close> and \<open>os.Stderr\<close>, and
  logging.
\<close>

datatype event =
    Run Cmd
  | StdoutWrite string
  | StderrWrite string
  | LogPrintf log_entry

record world =
  env :: env_table
  trace :: "event list"

text \<open>
  The value of \<open>fmt.Errorf("patchenv command %q failed: %q", cmdString, err.Error())\<close>:
  the command text and the text of the underlying error.
\<close>

datatype error = CommandFailed string string

text \<open>
  What \<open>cmd.Run()\<close> leaves behind: whether a process was started, the bytes it wrote
  into the two buffers, and the error \<open>Run\<close> returned (\<open>None\<close> for \<open>nil\<close>: the
  process started and exited with status zero; otherwise the text of the lookup, start
  or exit error).
\<close>

record proc_result =
  started :: bool
  outBuf :: string
  errBuf :: string
  run_err :: "string option"

text \<open>
  What the operating system does with a request to start a process: it refuses (the
  error text), or the process runs, writes its standard output and standard error, and
  is waited for (\<open>None\<close> when it exited with status zero, else the error text).
\<close>

datatype run_outcome =
    StartFailed string
  | Ran string string "string option"

text \<open>
  The operating system is not part of the repository and is a parameter of the model:
  \<open>exec.LookPath\<close> (the file found for a name, and the error if the lookup failed),
  starting a process from a file and an argument vector (both may depend on the
  environment of the moment), and which assignments \<open>os.Setenv\<close> rejects (\<open>Some\<close> the
  error text) or accepts.
\<close>

record platform =
  LookPath :: "env_table \<Rightarrow> string \<Rightarrow> string \<times> string option"
  StartProcess :: "env_table \<Rightarrow> string \<Rightarrow> string list \<Rightarrow> run_outcome"
  syscall_Setenv :: "string \<Rightarrow> string \<Rightarrow> string option"

definition patchCommandVar :: string where
  "patchCommandVar = ''PATCH_ENV_COMMAND''"

definition shellVar :: string where
  "shellVar = ''SHELL''"

text \<open>\<open>os.Getenv\<close>: the value, or the empty string when the variable is not set.\<close>

definition Getenv :: "string \<Rightarrow> world \<Rightarrow> string" where
  "Getenv key w = (case env w key of None \<Rightarrow> [] | Some v \<Rightarrow> v)"

text \<open>
  \<open>os.Setenv\<close>: the error when the system rejects the assignment, in which case
  nothing changes; otherwise the entry is added or overwritten.
\<close>

definition Setenv :: "platform \<Rightarrow> string \<Rightarrow> string \<Rightarrow> world \<Rightarrow> string option \<times> world" where
  "Setenv p key val w =
     (case syscall_Setenv p key val of
        Some e \<Rightarrow> (Some e, w)
      | None \<Rightarrow> (None, w\<lparr>env := (env w)(key \<mapsto> val)\<rparr>))"

text \<open>
  \<open>filepath.Base\<close> with \<open>/\<close> as the separator: the last element of the path, after
  trailing separators are dropped; \<open>.\<close> for the empty path and \<open>/\<close> for a path of
  separators only.
\<close>

definition Base :: "string \<Rightarrow> string" where
  "Base path =
     (if path = [] then ''.''
      else let stripped = rev (dropWhile (\<lambda>c. c = CHR ''/'') (rev path));
               elem = rev (takeWhile (\<lambda>c. c \<noteq> CHR ''/'') (rev stripped))
           in if elem = [] then ''/'' else elem)"

text \<open>
  \<open>exec.Command(name, arg...)\<close>: a name that is its own base (no directory in it) is
  looked up; a file that is found replaces the name as the file to run, and a lookup
  error is kept in the command.
\<close>

definition Command :: "platform \<Rightarrow> env_table \<Rightarrow> string \<Rightarrow> string list \<Rightarrow> Cmd" where
  "Command p e name arg =
     (let cmd = \<lparr>Path = name, Args = name # arg, Err = None\<rparr>
      in if Base name = name
         then let found = LookPath p e name;
                  cmd1 = (if fst found \<noteq> [] then cmd\<lparr>Path := fst found\<rparr> else cmd)
              in if snd found \<noteq> None then cmd1\<lparr>Err := snd found\<rparr> else cmd1
         else cmd)"

text \<open>
  \<open>cmd.Run()\<close>: a command that carries an error (or has no file to run) returns that
  error and starts nothing; otherwise the system is asked to start the file with the
  argument vector, and the process, if it starts, fills the two buffers.
\<close>

definition cmd_Run :: "platform \<Rightarrow> env_table \<Rightarrow> Cmd \<Rightarrow> proc_result" where
  "cmd_Run p e c =
     (case (if Path c = [] \<and> Err c = None then Some ''exec: no command'' else Err c) of
        Some x \<Rightarrow> \<lparr>started = False, outBuf = [], errBuf = [], run_err = Some x\<rparr>
      | None \<Rightarrow>
          (case StartProcess p e (Path c) (Args c) of
             StartFailed x \<Rightarrow> \<lparr>started = False, outBuf = [], errBuf = [], run_err = Some x\<rparr>
           | Ran out er werr \<Rightarrow>
               \<lparr>started = True, outBuf = out, errBuf = er, run_err = werr\<rparr>))"

section \<open>\<open>strings.SplitN\<close> with a one-byte separator\<close>

text \<open>
  The loop of \<open>genSplit\<close>: at most \<open>k\<close> cuts at the separator, the rest of the string
  is the last part.
\<close>

fun genSplit :: "string \<Rightarrow> char \<Rightarrow> nat \<Rightarrow> string list" where
  "genSplit s sep 0 = [s]"
| "genSplit s sep (Suc k) =
     (if sep \<in> set s
      then takeWhile (\<lambda>c. c \<noteq> sep) s # genSplit (tl (dropWhile (\<lambda>c. c \<noteq> sep) s)) sep k
      else [s])"

definition SplitN :: "string \<Rightarrow> char \<Rightarrow> int \<Rightarrow> string list" where
  "SplitN s sep n =
     (if n = 0 then []
      else let n1 = (if n < 0 then int (length (filter (\<lambda>c. c = sep) s)) + 1 else n);
               n2 = (if n1 > int (length s) + 1 then int (length s) + 1 else n1)
           in genSplit s sep (nat (n2 - 1)))"

section \<open>\<open>bufio.Scanner\<close> over a byte buffer, splitting with \<open>ScanLines\<close>\<close>

definition MaxScanTokenSize :: nat where
  "MaxScanTokenSize = 64 * 1024"

datatype scan_error = ErrTooLong

definition dropCR :: "string \<Rightarrow> string" where
  "dropCR data = (if data \<noteq> [] \<and> last data = CHR 0x0D then butlast data else data)"

text \<open>
  The scanner: the bytes not yet consumed, the token of the last successful \<open>Scan\<close>,
  and the error that stopped it. Its buffer grows to \<open>MaxScanTokenSize\<close> bytes and no
  further, so a line whose text before the newline (or before the end of the input) has
  \<open>MaxScanTokenSize\<close> bytes or more fills the buffer with no token in it.
\<close>

record Scanner =
  src :: string
  tok :: string
  serr :: "scan_error option"

definition NewScanner :: "string \<Rightarrow> Scanner" where
  "NewScanner r = \<lparr>src = r, tok = [], serr = None\<rparr>"

definition Scan :: "Scanner \<Rightarrow> bool \<times> Scanner" where
  "Scan s =
     (if serr s \<noteq> None \<or> src s = [] then (False, s\<lparr>tok := []\<rparr>)
      else let raw = takeWhile (\<lambda>c. c \<noteq> CHR 0x0A) (src s);
               rest = dropWhile (\<lambda>c. c \<noteq> CHR 0x0A) (src s)
           in if MaxScanTokenSize \<le> length raw
              then (False, s\<lparr>tok := [], serr := Some ErrTooLong\<rparr>)
              else (True, s\<lparr>src := tl rest, tok := dropCR raw\<rparr>))"

definition Text :: "Scanner \<Rightarrow> string" where
  "Text s = tok s"

section \<open>The three functions of \<open>patchenv.go\<close>\<close>

text \<open>The command \<open>runWithShell\<close> builds before it runs anything.\<close>

definition shell_cmd :: "platform \<Rightarrow> string \<Rightarrow> world \<Rightarrow> Cmd" where
  "shell_cmd p cmdString w =
     (let shell = Getenv shellVar w
      in if shell = [] then Command p (env w) cmdString []
         else Command p (env w) shell [''-c'', cmdString])"

definition runWithShell :: "platform \<Rightarrow> string \<Rightarrow> world \<Rightarrow> (error + string) \<times> world" where
  "runWithShell p cmdString w =
     (let cmd = shell_cmd p cmdString w;
          r = cmd_Run p (env w) cmd;
          w1 = w\<lparr>trace := trace w @ [Run cmd]\<rparr>
      in case run_err r of
           Some e \<Rightarrow>
             (Inl (CommandFailed cmdString e),
              w1\<lparr>trace := trace w1 @ [StdoutWrite (outBuf r), StderrWrite (errBuf r)]\<rparr>)
         | None \<Rightarrow> (Inr (outBuf r), w1))"

text \<open>The body of the \<open>for scanner.Scan()\<close> loop, for one line.\<close>

definition loop_body :: "platform \<Rightarrow> string \<Rightarrow> world \<Rightarrow> world" where
  "loop_body p line w =
     (let parts = SplitN line (CHR ''='') 2
      in if length parts \<noteq> 2 \<or> parts ! 0 = []
         then w\<lparr>trace := trace w @ [LogPrintf (InvalidOutputLine line)]\<rparr>
         else case Setenv p (parts ! 0) (parts ! 1) w of
                (Some e, w') \<Rightarrow>
                  w'\<lparr>trace := trace w' @
                       [LogPrintf (SetenvReturnedError (parts ! 0) (parts ! 1) e)]\<rparr>
              | (None, w') \<Rightarrow> w')"

text \<open>
  The loop itself. It ends when \<open>Scan\<close> returns false, and leaves the world and the
  scanner as they are then.
\<close>

function scan_loop :: "platform \<Rightarrow> Scanner \<Rightarrow> world \<Rightarrow> world \<times> Scanner" where
  "scan_loop p s w =
     (if fst (Scan s) then scan_loop p (snd (Scan s)) (loop_body p (Text (snd (Scan s))) w)
      else (w, snd (Scan s)))"
  by pat_completeness auto
termination
proof (relation "measure (\<lambda>(p, s, w). length (src s))")
  show "wf (measure (\<lambda>(p, s, w). length (src s)))"
    by simp
next
  fix p :: platform and s :: Scanner and w :: world
  assume ok: "fst (Scan s)"
  then have ne: "src s \<noteq> []"
    by (auto simp: Scan_def split: if_splits)
  from ok have "src (snd (Scan s)) = tl (dropWhile (\<lambda>c. c \<noteq> CHR 0x0A) (src s))"
    by (auto simp: Scan_def Let_def split: if_splits)
  moreover have "length (tl (dropWhile (\<lambda>c. c \<noteq> CHR 0x0A) (src s))) < length (src s)"
    using ne length_dropWhile_le [of "\<lambda>c. c \<noteq> CHR 0x0A" "src s"]
    by (cases "src s") (auto simp: less_Suc_eq_le)
  ultimately show "((p, snd (Scan s), loop_body p (Text (snd (Scan s))) w), (p, s, w))
      \<in> measure (\<lambda>(p, s, w). length (src s))"
    by simp
qed

text \<open>
  The values \<open>scanner.Text()\<close> takes in that loop, in order, and the loop body run
  over a list of lines.
\<close>

function scanned_lines :: "Scanner \<Rightarrow> string list" where
  "scanned_lines s =
     (if fst (Scan s) then Text (snd (Scan s)) # scanned_lines (snd (Scan s)) else [])"
  by pat_completeness auto
termination
proof (relation "measure (\<lambda>s. length (src s))")
  show "wf (measure (\<lambda>s. length (src s)))"
    by simp
next
  fix s :: Scanner
  assume ok: "fst (Scan s)"
  then have ne: "src s \<noteq> []"
    by (auto simp: Scan_def split: if_splits)
  from ok have "src (snd (Scan s)) = tl (dropWhile (\<lambda>c. c \<noteq> CHR 0x0A) (src s))"
    by (auto simp: Scan_def Let_def split: if_splits)
  moreover have "length (tl (dropWhile (\<lambda>c. c \<noteq> CHR 0x0A) (src s))) < length (src s)"
    using ne length_dropWhile_le [of "\<lambda>c. c \<noteq> CHR 0x0A" "src s"]
    by (cases "src s") (auto simp: less_Suc_eq_le)
  ultimately show "(snd (Scan s), s) \<in> measure (\<lambda>s. length (src s))"
    by simp
qed

definition apply_lines :: "platform \<Rightarrow> string list \<Rightarrow> world \<Rightarrow> world" where
  "apply_lines p ls w = foldl (\<lambda>w l. loop_body p l w) w ls"

text \<open>
  \<open>patchFromCommand\<close> never calls \<open>scanner.Err()\<close>: the scanner the loop leaves
  behind is dropped.
\<close>

definition patchFromCommand :: "platform \<Rightarrow> string \<Rightarrow> world \<Rightarrow> error option \<times> world" where
  "patchFromCommand p cmdString w =
     (case runWithShell p cmdString w of
        (Inl e, w') \<Rightarrow> (Some e, w')
      | (Inr out, w') \<Rightarrow> (None, fst (scan_loop p (NewScanner out) w')))"

text \<open>The commands \<open>cmd.Run()\<close> was called on in a trace, in order.\<close>

fun runs :: "event list \<Rightarrow> Cmd list" where
  "runs [] = []"
| "runs (Run c # es) = c # runs es"
| "runs (e # es) = runs es"

definition Patch :: "platform \<Rightarrow> world \<Rightarrow> error option \<times> world" where
  "Patch p w =
     (let cmdString = Getenv patchCommandVar w
      in if cmdString = [] then (None, w) else patchFromCommand p cmdString w)"

section \<open>The lines of the output, as the specification speaks of them\<close>

text \<open>
  Not part of the code: the output cut at its newline bytes. The bytes after the last
  newline, if there are any, are a line too; an empty output has no line. A carriage
  return before the newline is still in the line here.
\<close>

function stdout_lines :: "string \<Rightarrow> string list" where
  "stdout_lines out =
     (if out = [] then []
      else takeWhile (\<lambda>c. c \<noteq> CHR 0x0A) out
           # stdout_lines (tl (dropWhile (\<lambda>c. c \<noteq> CHR 0x0A) out)))"
  by pat_completeness auto
termination
proof (relation "measure length")
  show "wf (measure length)"
    by simp
next
  fix out :: string
  assume "out \<noteq> []"
  then have "length (tl (dropWhile (\<lambda>c. c \<noteq> CHR 0x0A) out)) < length out"
    using length_dropWhile_le [of "\<lambda>c. c \<noteq> CHR 0x0A" out]
    by (cases out) (auto simp: less_Suc_eq_le)
  then show "(tl (dropWhile (\<lambda>c. c \<noteq> CHR 0x0A) out), out) \<in> measure length"
    by simp
qed

section \<open>Concrete platforms\<close>

text \<open>
  \<open>syscall.Setenv\<close> on Unix-like systems: \<open>EINVAL\<close> for an empty key, a key with
  \<open>=\<close> or a NUL byte in it, or a value with a NUL byte; \<open>os.Setenv\<close> wraps it as
  \<open>setenv: invalid argument\<close>.
\<close>

definition unix_Setenv :: "string \<Rightarrow> string \<Rightarrow> string option" where
  "unix_Setenv key val =
     (if key = [] \<or> CHR ''='' \<in> set key \<or> CHR 0x00 \<in> set key \<or> CHR 0x00 \<in> set val
      then Some ''setenv: invalid argument'' else None)"

text \<open>
  A platform on which every name is found under \<open>/usr/bin\<close> and every process that
  is started behaves the same way.
\<close>

definition scripted :: "run_outcome \<Rightarrow> platform" where
  "scripted r =
     \<lparr>LookPath = (\<lambda>e name. (''/usr/bin/'' @ name, None)),
      StartProcess = (\<lambda>e file argv. r),
      syscall_Setenv = unix_Setenv\<rparr>"

definition prints :: "string \<Rightarrow> platform" where
  "prints out = scripted (Ran out [] None)"

text \<open>
  The text of the error \<open>exec.LookPath\<close> gives for a name it does not find (the name
  in double quotes; written for names that need no escaping).
\<close>

definition not_found :: "string \<Rightarrow> string" where
  "not_found name =
     ''exec: '' @ [CHR 0x22] @ name @ [CHR 0x22] @ '': executable file not found in $PATH''"

text \<open>
  A platform with one program, \<open>echo\<close>, which prints its arguments separated by
  spaces; no other name is found, and no other file can be started.
\<close>

definition echo_only :: platform where
  "echo_only =
     \<lparr>LookPath = (\<lambda>e name.
        if name = ''echo'' then (''/bin/echo'', None) else ([], Some (not_found name))),
      StartProcess = (\<lambda>e file argv.
        if file = ''/bin/echo''
        then Ran ((case tl argv of [] \<Rightarrow> [] | a # as \<Rightarrow> foldl (\<lambda>x y. x @ '' '' @ y) a as)
                  @ [CHR 0x0A]) [] None
        else StartFailed (''fork/exec '' @ file @ '': no such file or directory'')),
      syscall_Setenv = unix_Setenv\<rparr>"

text \<open>A line too long for the scanner: \<open>MaxScanTokenSize\<close> bytes and no newline.\<close>

definition overlong :: string where
  "overlong = replicate MaxScanTokenSize (CHR ''x'')"

section \<open>Basic facts about the model\<close>

declare scan_loop.simps [simp del] scanned_lines.simps [simp del]

lemma SplitN_eq2:
  "SplitN line (CHR ''='') 2 =
     (if CHR ''='' \<in> set line
      then [takeWhile (\<lambda>c. c \<noteq> CHR ''='') line, tl (dropWhile (\<lambda>c. c \<noteq> CHR ''='') line)]
      else [line])"
proof (cases line)
  case Nil
  then show ?thesis by (simp add: SplitN_def)
next
  case (Cons a as)
  then have "nat (2 - 1) = Suc 0" by simp
  with Cons show ?thesis
    by (simp add: SplitN_def Let_def)
qed

lemma SplitN_assignment:
  assumes "CHR ''='' \<notin> set k"
  shows "SplitN (k @ CHR ''='' # v) (CHR ''='') 2 = [k, v]"
proof -
  have "takeWhile (\<lambda>c. c \<noteq> CHR ''='') (k @ CHR ''='' # v) = k"
    using assms by (induction k) auto
  moreover have "dropWhile (\<lambda>c. c \<noteq> CHR ''='') (k @ CHR ''='' # v) = CHR ''='' # v"
    using assms by (induction k) auto
  ultimately show ?thesis
    by (simp add: SplitN_eq2)
qed

lemma line_decomposition:
  assumes "CHR ''='' \<in> set line"
  shows "line = takeWhile (\<lambda>c. c \<noteq> CHR ''='') line @ CHR ''='' #
                tl (dropWhile (\<lambda>c. c \<noteq> CHR ''='') line)"
proof -
  from assms have "dropWhile (\<lambda>c. c \<noteq> CHR ''='') line \<noteq> []"
    by (simp add: dropWhile_eq_Nil_conv)
  moreover from this have "hd (dropWhile (\<lambda>c. c \<noteq> CHR ''='') line) = CHR ''=''"
    using hd_dropWhile [of "\<lambda>c. c \<noteq> CHR ''=''" line] by simp
  ultimately have "dropWhile (\<lambda>c. c \<noteq> CHR ''='') line =
      CHR ''='' # tl (dropWhile (\<lambda>c. c \<noteq> CHR ''='') line)"
    by (cases "dropWhile (\<lambda>c. c \<noteq> CHR ''='') line") auto
  then show ?thesis
    using takeWhile_dropWhile_id [of "\<lambda>c. c \<noteq> CHR ''=''" line] by metis
qed

lemma loop_body_invalid:
  assumes "CHR ''='' \<notin> set line \<or> takeWhile (\<lambda>c. c \<noteq> CHR ''='') line = []"
  shows "loop_body p line w = w\<lparr>trace := trace w @ [LogPrintf (InvalidOutputLine line)]\<rparr>"
  using assms by (auto simp: loop_body_def SplitN_eq2)

lemma loop_body_assignment:
  assumes "CHR ''='' \<notin> set k" and "k \<noteq> []"
  shows "loop_body p (k @ CHR ''='' # v) w =
     (case syscall_Setenv p k v of
        None \<Rightarrow> w\<lparr>env := (env w)(k \<mapsto> v)\<rparr>
      | Some e \<Rightarrow> w\<lparr>trace := trace w @ [LogPrintf (SetenvReturnedError k v e)]\<rparr>)"
  using assms by (simp add: loop_body_def SplitN_assignment Setenv_def split: option.splits)

lemma apply_lines_Nil [simp]: "apply_lines p [] w = w"
  by (simp add: apply_lines_def)

lemma apply_lines_Cons [simp]: "apply_lines p (l # ls) w = apply_lines p ls (loop_body p l w)"
  by (simp add: apply_lines_def)

lemma apply_lines_append [simp]:
  "apply_lines p (xs @ ys) w = apply_lines p ys (apply_lines p xs w)"
  by (simp add: apply_lines_def)

lemma scan_loop_apply_lines:
  "fst (scan_loop p s w) = apply_lines p (scanned_lines s) w"
proof (induction p s w rule: scan_loop.induct)
  case (1 p s w)
  show ?case
  proof (cases "fst (Scan s)")
    case True
    then show ?thesis
      using "1.IH" by (subst scan_loop.simps, subst scanned_lines.simps) simp
  next
    case False
    then show ?thesis
      by (subst scan_loop.simps, subst scanned_lines.simps) simp
  qed
qed

lemma Patch_set:
  assumes "Getenv patchCommandVar w = cmd" and "cmd \<noteq> []"
  shows "Patch p w = patchFromCommand p cmd w"
  using assms by (simp add: Patch_def)

lemma patchFromCommand_failed:
  assumes "run_err (cmd_Run p (env w) (shell_cmd p cmd w)) = Some e"
  shows "patchFromCommand p cmd w =
     (Some (CommandFailed cmd e),
      w\<lparr>trace := trace w @
          [Run (shell_cmd p cmd w),
           StdoutWrite (outBuf (cmd_Run p (env w) (shell_cmd p cmd w))),
           StderrWrite (errBuf (cmd_Run p (env w) (shell_cmd p cmd w)))]\<rparr>)"
  using assms by (simp add: patchFromCommand_def runWithShell_def Let_def)

lemma patchFromCommand_exit_zero:
  assumes "run_err (cmd_Run p (env w) (shell_cmd p cmd w)) = None"
  shows "patchFromCommand p cmd w =
     (None,
      apply_lines p (scanned_lines (NewScanner (outBuf (cmd_Run p (env w) (shell_cmd p cmd w)))))
        (w\<lparr>trace := trace w @ [Run (shell_cmd p cmd w)]\<rparr>))"
  using assms by (simp add: patchFromCommand_def runWithShell_def Let_def scan_loop_apply_lines)

lemma runs_append [simp]: "runs (xs @ ys) = runs xs @ runs ys"
  by (induction xs rule: runs.induct) simp_all

lemma loop_body_cases:
  "loop_body p line w = w\<lparr>trace := trace w @ [LogPrintf (InvalidOutputLine line)]\<rparr>
   \<or> (\<exists>k v. line = k @ CHR ''='' # v \<and> CHR ''='' \<notin> set k \<and> k \<noteq> [])"
proof (cases "CHR ''='' \<notin> set line \<or> takeWhile (\<lambda>c. c \<noteq> CHR ''='') line = []")
  case True
  then show ?thesis by (simp add: loop_body_invalid)
next
  case False
  then have "line = takeWhile (\<lambda>c. c \<noteq> CHR ''='') line @ CHR ''='' #
                tl (dropWhile (\<lambda>c. c \<noteq> CHR ''='') line)"
    by (simp add: line_decomposition)
  moreover have "CHR ''='' \<notin> set (takeWhile (\<lambda>c. c \<noteq> CHR ''='') line)"
    by (auto dest: set_takeWhileD)
  ultimately show ?thesis using False by blast
qed

lemma loop_body_runs [simp]: "runs (trace (loop_body p line w)) = runs (trace w)"
  using loop_body_cases [of p line w]
  by (auto simp: loop_body_assignment split: option.splits)

lemma apply_lines_runs [simp]: "runs (trace (apply_lines p ls w)) = runs (trace w)"
  by (induction ls arbitrary: w) simp_all

lemma Patch_exit_zero:
  assumes "Getenv patchCommandVar w = cmd" and "cmd \<noteq> []"
    and "cmd_Run p (env w) (shell_cmd p cmd w) = r" and "run_err r = None"
  shows "Patch p w =
     (None, apply_lines p (scanned_lines (NewScanner (outBuf r)))
              (w\<lparr>trace := trace w @ [Run (shell_cmd p cmd w)]\<rparr>))"
  using assms Patch_set [of w cmd p] patchFromCommand_exit_zero [of p w cmd] by simp

lemma Patch_runs:
  assumes "Getenv patchCommandVar w = cmd" and "cmd \<noteq> []"
  shows "runs (trace (snd (Patch p w))) = runs (trace w) @ [shell_cmd p cmd w]"
proof (cases "run_err (cmd_Run p (env w) (shell_cmd p cmd w))")
  case None
  then show ?thesis
    using Patch_exit_zero [OF assms refl, of p] by simp
next
  case (Some e)
  then show ?thesis
    using Patch_set [OF assms, of p] patchFromCommand_failed [of p w cmd e] by simp
qed

lemma Scan_tok_irrelevant: "Scan (s\<lparr>tok := t\<rparr>) = Scan s"
  by (simp add: Scan_def Let_def)

lemma takeWhile_line:
  assumes "CHR 0x0A \<notin> set a"
  shows "takeWhile (\<lambda>c. c \<noteq> CHR 0x0A) (a @ CHR 0x0A # rest) = a"
  using assms by (induction a) auto

lemma dropWhile_line:
  assumes "CHR 0x0A \<notin> set a"
  shows "dropWhile (\<lambda>c. c \<noteq> CHR 0x0A) (a @ CHR 0x0A # rest) = CHR 0x0A # rest"
  using assms by (induction a) auto

lemma takeWhile_no_newline:
  assumes "CHR 0x0A \<notin> set a"
  shows "takeWhile (\<lambda>c. c \<noteq> CHR 0x0A) a = a"
  using assms by (induction a) auto

lemma dropWhile_no_newline:
  assumes "CHR 0x0A \<notin> set a"
  shows "dropWhile (\<lambda>c. c \<noteq> CHR 0x0A) a = []"
  using assms by (induction a) auto

lemma scanned_lines_empty [simp]: "scanned_lines (NewScanner []) = []"
  by (subst scanned_lines.simps) (simp add: Scan_def NewScanner_def)

lemma Scan_line:
  assumes "CHR 0x0A \<notin> set a" and "length a < MaxScanTokenSize"
  shows "Scan (NewScanner (a @ CHR 0x0A # rest)) = (True, (NewScanner rest)\<lparr>tok := dropCR a\<rparr>)"
  using assms
  by (simp add: Scan_def NewScanner_def Let_def takeWhile_line dropWhile_line)

lemma scanned_lines_tok [simp]: "scanned_lines (s\<lparr>tok := t\<rparr>) = scanned_lines s"
  by (subst scanned_lines.simps, subst (2) scanned_lines.simps)
     (simp add: Scan_tok_irrelevant)

lemma scanned_lines_line:
  assumes "CHR 0x0A \<notin> set a" and "length a < MaxScanTokenSize"
  shows "scanned_lines (NewScanner (a @ CHR 0x0A # rest)) = dropCR a # scanned_lines (NewScanner rest)"
  by (subst scanned_lines.simps) (simp add: Scan_line [OF assms] Text_def)

lemma scanned_lines_last:
  assumes "CHR 0x0A \<notin> set a" and "length a < MaxScanTokenSize" and "a \<noteq> []"
  shows "scanned_lines (NewScanner a) = [dropCR a]"
proof -
  have "Scan (NewScanner a) = (True, (NewScanner [])\<lparr>tok := dropCR a\<rparr>)"
    using assms
    by (simp add: Scan_def NewScanner_def Let_def takeWhile_no_newline dropWhile_no_newline)
  then show ?thesis
    by (subst scanned_lines.simps) (simp add: Text_def)
qed

lemma Scan_too_long:
  assumes "CHR 0x0A \<notin> set a" and "MaxScanTokenSize \<le> length a"
  shows "Scan (NewScanner (a @ rest)) = (False, (NewScanner (a @ rest))\<lparr>serr := Some ErrTooLong\<rparr>)"
proof -
  have "takeWhile (\<lambda>c. c \<noteq> CHR 0x0A) (a @ rest) = a @ takeWhile (\<lambda>c. c \<noteq> CHR 0x0A) rest"
    using assms(1) by (induction a) auto
  moreover have "a \<noteq> []"
    using assms(2) by (auto simp: MaxScanTokenSize_def)
  ultimately show ?thesis
    using assms(2) by (simp add: Scan_def NewScanner_def Let_def)
qed

lemma loop_body_env_invalid:
  assumes "CHR ''='' \<notin> set line \<or> takeWhile (\<lambda>c. c \<noteq> CHR ''='') line = []"
  shows "env (loop_body p line w) = env w"
  using assms by (simp add: loop_body_invalid)

lemma loop_body_env_cong:
  assumes "env w = env w'"
  shows "env (loop_body p line w) = env (loop_body p line w')"
proof -
  consider (bad) "CHR ''='' \<notin> set line \<or> takeWhile (\<lambda>c. c \<noteq> CHR ''='') line = []"
    | (good) k v where "line = k @ CHR ''='' # v" "CHR ''='' \<notin> set k" "k \<noteq> []"
    using loop_body_cases [of p line w] line_decomposition [of line]
    by (metis set_takeWhileD)
  then show ?thesis
  proof cases
    case bad
    then show ?thesis using assms by (simp add: loop_body_invalid)
  next
    case good
    then show ?thesis using assms
      by (simp add: loop_body_assignment split: option.splits)
  qed
qed

lemma apply_lines_env_filter:
  assumes "env w = env w'"
  shows "env (apply_lines p ls w) =
         env (apply_lines p
                (filter (\<lambda>l. CHR ''='' \<in> set l \<and> takeWhile (\<lambda>c. c \<noteq> CHR ''='') l \<noteq> []) ls) w')"
  using assms
proof (induction ls arbitrary: w w')
  case Nil
  then show ?case by simp
next
  case (Cons l ls)
  show ?case
  proof (cases "CHR ''='' \<in> set l \<and> takeWhile (\<lambda>c. c \<noteq> CHR ''='') l \<noteq> []")
    case True
    have "env (loop_body p l w) = env (loop_body p l w')"
      using Cons.prems by (rule loop_body_env_cong)
    from Cons.IH [OF this] True show ?thesis by simp
  next
    case False
    then have "env (loop_body p l w) = env w'"
      using Cons.prems loop_body_env_invalid [of l p w] by auto
    from Cons.IH [OF this] False show ?thesis by auto
  qed
qed

lemma complete_lines_split:
  assumes "pre \<noteq> []" and "last pre = CHR 0x0A"
  obtains a pre' where "pre = a @ CHR 0x0A # pre'" and "CHR 0x0A \<notin> set a"
    and "pre' = [] \<or> last pre' = CHR 0x0A"
proof -
  from assms have "CHR 0x0A \<in> set pre"
    using last_in_set by metis
  then obtain a pre' where p: "pre = a @ CHR 0x0A # pre'" and a: "CHR 0x0A \<notin> set a"
    using split_list_first by metis
  from p assms(2) have "pre' = [] \<or> last pre' = CHR 0x0A"
    by (cases "pre' = []") simp_all
  with p a show ?thesis by (rule that)
qed

lemma scanned_lines_stop_at_long_line:
  assumes "pre = [] \<or> last pre = CHR 0x0A"
    and "CHR 0x0A \<notin> set long" and "MaxScanTokenSize \<le> length long"
  shows "scanned_lines (NewScanner (pre @ long @ rest)) = scanned_lines (NewScanner pre)"
  using assms(1)
proof (induction pre rule: length_induct)
  case (1 pre)
  show ?case
  proof (cases "pre = []")
    case True
    have "scanned_lines (NewScanner (long @ rest)) = []"
      by (subst scanned_lines.simps) (simp add: Scan_too_long [OF assms(2,3)])
    with True show ?thesis by simp
  next
    case False
    with "1.prems" have "last pre = CHR 0x0A" by simp
    with False obtain a pre' where p: "pre = a @ CHR 0x0A # pre'"
      and a: "CHR 0x0A \<notin> set a" and pre': "pre' = [] \<or> last pre' = CHR 0x0A"
      by (rule complete_lines_split)
    show ?thesis
    proof (cases "length a < MaxScanTokenSize")
      case True
      have "length pre' < length pre" by (simp add: p)
      with "1.IH" pre' have
        "scanned_lines (NewScanner (pre' @ long @ rest)) = scanned_lines (NewScanner pre')"
        by blast
      then show ?thesis
        using scanned_lines_line [OF a True, of "pre' @ long @ rest"]
          scanned_lines_line [OF a True, of pre']
        by (simp add: p)
    next
      case False
      then have big: "MaxScanTokenSize \<le> length a" by simp
      have "scanned_lines (NewScanner (a @ (CHR 0x0A # pre' @ long @ rest))) = []"
        by (subst scanned_lines.simps) (simp add: Scan_too_long [OF a big])
      moreover have "scanned_lines (NewScanner (a @ (CHR 0x0A # pre'))) = []"
        by (subst scanned_lines.simps) (simp add: Scan_too_long [OF a big])
      ultimately show ?thesis by (simp add: p)
    qed
  qed
qed

lemma scan_loop_tok [simp]: "scan_loop p (s\<lparr>tok := t\<rparr>) w = scan_loop p s w"
  by (subst scan_loop.simps, subst (2) scan_loop.simps)
     (simp add: Scan_tok_irrelevant)

lemma scan_loop_stops_with_ErrTooLong:
  assumes "pre = [] \<or> last pre = CHR 0x0A"
    and "CHR 0x0A \<notin> set long" and "MaxScanTokenSize \<le> length long"
  shows "serr (snd (scan_loop p (NewScanner (pre @ long @ rest)) w)) = Some ErrTooLong"
  using assms(1)
proof (induction pre arbitrary: w rule: length_induct)
  case (1 pre)
  show ?case
  proof (cases "pre = []")
    case True
    then show ?thesis
      by (subst scan_loop.simps) (simp add: Scan_too_long [OF assms(2,3)])
  next
    case False
    with "1.prems" have "last pre = CHR 0x0A" by simp
    with False obtain a pre' where p: "pre = a @ CHR 0x0A # pre'"
      and a: "CHR 0x0A \<notin> set a" and pre': "pre' = [] \<or> last pre' = CHR 0x0A"
      by (rule complete_lines_split)
    show ?thesis
    proof (cases "length a < MaxScanTokenSize")
      case True
      have "length pre' < length pre" by (simp add: p)
      with "1.IH" pre' have
        "\<And>w. serr (snd (scan_loop p (NewScanner (pre' @ long @ rest)) w)) = Some ErrTooLong"
        by blast
      then show ?thesis
        by (subst scan_loop.simps)
           (simp add: p Scan_line [OF a True, of "pre' @ long @ rest"])
    next
      case False
      then have big: "MaxScanTokenSize \<le> length a" by simp
      show ?thesis
        using Scan_too_long [OF a big, of "CHR 0x0A # pre' @ long @ rest"]
        by (subst scan_loop.simps) (simp add: p)
    qed
  qed
qed

lemma scanned_lines_terminated:
  assumes "\<forall>l \<in> set ls. CHR 0x0A \<notin> set l \<and> length l < MaxScanTokenSize"
  shows "scanned_lines (NewScanner (concat (map (\<lambda>l. l @ [CHR 0x0A]) ls))) = map dropCR ls"
  using assms
proof (induction ls)
  case Nil
  show ?case by simp
next
  case (Cons l ls)
  then have l: "CHR 0x0A \<notin> set l" "length l < MaxScanTokenSize" by simp_all
  from Cons have "scanned_lines (NewScanner (concat (map (\<lambda>l. l @ [CHR 0x0A]) ls))) = map dropCR ls"
    by simp
  then show ?case
    using scanned_lines_line [OF l, of "concat (map (\<lambda>l. l @ [CHR 0x0A]) ls)"] by simp
qed

declare stdout_lines.simps [simp del]

lemma stdout_lines_empty [simp]: "stdout_lines [] = []"
  by (subst stdout_lines.simps) simp

lemma stdout_lines_line:
  assumes "CHR 0x0A \<notin> set a"
  shows "stdout_lines (a @ CHR 0x0A # rest) = a # stdout_lines rest"
  by (subst stdout_lines.simps) (simp add: takeWhile_line [OF assms] dropWhile_line [OF assms])

lemma stdout_lines_last:
  assumes "CHR 0x0A \<notin> set a" and "a \<noteq> []"
  shows "stdout_lines a = [a]"
  using assms
  by (subst stdout_lines.simps) (simp add: takeWhile_no_newline dropWhile_no_newline)

lemma stdout_lines_terminated:
  assumes "\<forall>l \<in> set ls. CHR 0x0A \<notin> set l"
  shows "stdout_lines (concat (map (\<lambda>l. l @ [CHR 0x0A]) ls)) = ls"
  using assms by (induction ls) (simp_all add: stdout_lines_line)

lemma scanned_lines_stdout_lines:
  "scanned_lines (NewScanner out) =
     map dropCR (takeWhile (\<lambda>l. length l < MaxScanTokenSize) (stdout_lines out))"
proof (induction out rule: stdout_lines.induct)
  case (1 out)
  show ?case
  proof (cases "out = []")
    case True
    then show ?thesis by simp
  next
    case False
    let ?a = "takeWhile (\<lambda>c. c \<noteq> CHR 0x0A) out"
    let ?rest = "tl (dropWhile (\<lambda>c. c \<noteq> CHR 0x0A) out)"
    have sl: "stdout_lines out = ?a # stdout_lines ?rest"
      using False by (subst stdout_lines.simps) simp
    show ?thesis
    proof (cases "length ?a < MaxScanTokenSize")
      case True
      then have "Scan (NewScanner out) = (True, (NewScanner ?rest)\<lparr>tok := dropCR ?a\<rparr>)"
        using False by (simp add: Scan_def NewScanner_def Let_def)
      then have "scanned_lines (NewScanner out) = dropCR ?a # scanned_lines (NewScanner ?rest)"
        by (subst scanned_lines.simps) (simp add: Text_def)
      then show ?thesis
        using "1.IH" [OF False] True by (simp add: sl)
    next
      case long: False
      then have "Scan (NewScanner out) = (False, (NewScanner out)\<lparr>serr := Some ErrTooLong\<rparr>)"
        using False by (simp add: Scan_def NewScanner_def Let_def)
      then have "scanned_lines (NewScanner out) = []"
        by (subst scanned_lines.simps) simp
      then show ?thesis
        using long by (simp add: sl)
    qed
  qed
qed

lemma reached_lines:
  assumes "\<forall>l \<in> set pre. length l < MaxScanTokenSize" and "length raw < MaxScanTokenSize"
  shows "takeWhile (\<lambda>l. length l < MaxScanTokenSize) (pre @ raw # post)
       = pre @ raw # takeWhile (\<lambda>l. length l < MaxScanTokenSize) post"
  using assms by (simp add: takeWhile_append2)

lemma Patch_reaches_line:
  assumes "Getenv patchCommandVar w = cmd" and "cmd \<noteq> []"
    and "cmd_Run p (env w) (shell_cmd p cmd w) = r" and "run_err r = None"
    and "stdout_lines (outBuf r) = pre @ raw # post"
    and "\<forall>l \<in> set pre. length l < MaxScanTokenSize" and "length raw < MaxScanTokenSize"
  shows "Patch p w =
     (None,
      apply_lines p (map dropCR (takeWhile (\<lambda>l. length l < MaxScanTokenSize) post))
        (loop_body p (dropCR raw)
           (apply_lines p (map dropCR pre)
              (w\<lparr>trace := trace w @ [Run (shell_cmd p cmd w)]\<rparr>))))"
  using Patch_exit_zero [OF assms(1-4)]
  by (simp add: scanned_lines_stdout_lines assms(5) reached_lines [OF assms(6,7)])

lemma dropCR_cases: "raw = dropCR raw \<or> raw = dropCR raw @ [CHR 0x0D]"
proof (cases "raw \<noteq> [] \<and> last raw = CHR 0x0D")
  case True
  then have "butlast raw @ [CHR 0x0D] = raw"
    using append_butlast_last_id [of raw] by simp
  then have "raw = dropCR raw @ [CHR 0x0D]"
    using True by (simp add: dropCR_def)
  then show ?thesis ..
next
  case False
  then have "raw = dropCR raw"
    by (auto simp: dropCR_def)
  then show ?thesis ..
qed

lemma loop_body_env_unassigned:
  assumes "\<forall>v. line = k @ CHR ''='' # v \<longrightarrow> syscall_Setenv p k v \<noteq> None"
  shows "env (loop_body p line w) k = env w k"
  using loop_body_cases [of p line w] assms
  by (auto simp: loop_body_assignment split: option.splits)

lemma apply_lines_env_unassigned:
  assumes "\<forall>l\<in>set ls. \<forall>v. l = k @ CHR ''='' # v \<longrightarrow> syscall_Setenv p k v \<noteq> None"
  shows "env (apply_lines p ls w) k = env w k"
  using assms by (induction ls arbitrary: w) (simp_all add: loop_body_env_unassigned)

lemma Command_nonempty:
  assumes "name \<noteq> []"
  shows "Path (Command p e name arg) \<noteq> []"
  using assms by (simp add: Command_def Let_def)

lemma shell_cmd_nonempty:
  assumes "cmd \<noteq> []"
  shows "Path (shell_cmd p cmd w) \<noteq> []"
  using assms by (simp add: shell_cmd_def Let_def Command_nonempty)

lemma shell_cmd_scripted_Err [simp]: "Err (shell_cmd (scripted r) cmd w) = None"
  by (simp add: shell_cmd_def Command_def Let_def scripted_def)

lemma scripted_Run:
  assumes "cmd \<noteq> []"
  shows "cmd_Run (scripted (Ran out er werr)) e (shell_cmd (scripted (Ran out er werr)) cmd w)
       = \<lparr>started = True, outBuf = out, errBuf = er, run_err = werr\<rparr>"
  using shell_cmd_nonempty [OF assms, of "scripted (Ran out er werr)" w]
  by (simp add: cmd_Run_def) (simp add: scripted_def)

lemma x_cmd:
  assumes "env w ''SHELL'' = None"
  shows "shell_cmd (scripted r) ''x'' w = \<lparr>Path = ''/usr/bin/x'', Args = [''x''], Err = None\<rparr>"
  using assms
  by (simp add: shell_cmd_def Getenv_def shellVar_def Command_def Let_def Base_def scripted_def)

lemma overlong_length [simp]: "length overlong = MaxScanTokenSize"
  by (simp add: overlong_def)

lemma overlong_no_newline [simp]: "CHR 0x0A \<notin> set overlong"
  by (simp add: overlong_def)

lemma overlong_no_equals [simp]: "CHR ''='' \<notin> set overlong"
  by (simp add: overlong_def)

lemma Patch_prints:
  assumes "env w ''PATCH_ENV_COMMAND'' = Some ''x''" and "env w ''SHELL'' = None"
  shows "Patch (prints out) w =
     (None,
      apply_lines (prints out)
        (map dropCR (takeWhile (\<lambda>l. length l < MaxScanTokenSize) (stdout_lines out)))
        (w\<lparr>trace := trace w @ [Run \<lparr>Path = ''/usr/bin/x'', Args = [''x''], Err = None\<rparr>]\<rparr>))"
proof -
  have h1: "Getenv patchCommandVar w = ''x''"
    using assms(1) by (simp add: Getenv_def patchCommandVar_def)
  have h3: "cmd_Run (prints out) (env w) (shell_cmd (prints out) ''x'' w)
      = \<lparr>started = True, outBuf = out, errBuf = [], run_err = None\<rparr>"
    unfolding prints_def by (rule scripted_Run) simp
  have c: "shell_cmd (prints out) ''x'' w = \<lparr>Path = ''/usr/bin/x'', Args = [''x''], Err = None\<rparr>"
    unfolding prints_def using assms(2) by (rule x_cmd)
  show ?thesis
    using Patch_exit_zero [OF h1 _ h3] by (simp add: c scanned_lines_stdout_lines)
qed

lemma prints_accepts:
  assumes "k \<noteq> []" and "CHR ''='' \<notin> set k" and "CHR 0x00 \<notin> set k" and "CHR 0x00 \<notin> set v"
  shows "syscall_Setenv (prints out) k v = None"
  using assms by (simp add: prints_def scripted_def unix_Setenv_def)

lemma prints_rejects:
  assumes "CHR 0x00 \<in> set k \<or> CHR 0x00 \<in> set v"
  shows "syscall_Setenv (prints out) k v = Some ''setenv: invalid argument''"
  using assms by (auto simp: prints_def scripted_def unix_Setenv_def)

lemma prints_assigns:
  assumes "k \<noteq> []" and "CHR ''='' \<notin> set k" and "CHR 0x00 \<notin> set k" and "CHR 0x00 \<notin> set v"
  shows "loop_body (prints out) (k @ CHR ''='' # v) w = w\<lparr>env := (env w)(k \<mapsto> v)\<rparr>"
  using assms by (simp add: loop_body_assignment prints_accepts)

section \<open>The control variable and the failing command\<close>

text \<open>
  C3. Whenever \<open>PATCH_ENV_COMMAND\<close> is unset or set to the empty string, \<open>Patch\<close>
  returns success at once and the world is exactly as it was: the environment is
  unchanged and nothing was run, written or logged.
\<close>

theorem C3_unset_or_empty_is_noop:
  assumes "env w patchCommandVar = None \<or> env w patchCommandVar = Some []"
  shows "Patch p w = (None, w)"
  using assms by (auto simp: Patch_def Getenv_def)

theorem C3_unset_or_empty_is_noop_witness:
  "(env \<lparr>env = [''HOME'' \<mapsto> ''/root''], trace = []\<rparr> patchCommandVar = None
      \<or> env \<lparr>env = [''HOME'' \<mapsto> ''/root''], trace = []\<rparr> patchCommandVar = Some [])
   \<and> Patch echo_only \<lparr>env = [''HOME'' \<mapsto> ''/root''], trace = []\<rparr>
       = (None, \<lparr>env = [''HOME'' \<mapsto> ''/root''], trace = []\<rparr>)"
proof -
  have h: "env \<lparr>env = [''HOME'' \<mapsto> ''/root''], trace = []\<rparr> patchCommandVar = None
      \<or> env \<lparr>env = [''HOME'' \<mapsto> ''/root''], trace = []\<rparr> patchCommandVar = Some []"
    by (simp add: patchCommandVar_def)
  show ?thesis
    using h C3_unset_or_empty_is_noop [OF h, of echo_only] by simp
qed

text \<open>
  C2. Whenever the control variable holds a command and running it returns an error
  (the program was not found, the subprocess did not start, or it exited non-zero),
  \<open>Patch\<close> returns the failure carrying the command text and the text of the
  underlying error; the environment is the one before the call; and what the call did
  is exactly: call \<open>cmd.Run()\<close> on the command, write the captured stdout buffer to
  stdout, then write the captured stderr buffer to stderr. No line is parsed: nothing
  is logged.
\<close>

theorem C2_failed_command:
  assumes "Getenv patchCommandVar w = cmd" and "cmd \<noteq> []"
    and "cmd_Run p (env w) (shell_cmd p cmd w) = r" and "run_err r = Some e"
  shows "Patch p w =
           (Some (CommandFailed cmd e),
            w\<lparr>trace := trace w @
                [Run (shell_cmd p cmd w), StdoutWrite (outBuf r), StderrWrite (errBuf r)]\<rparr>)
         \<and> env (snd (Patch p w)) = env w"
proof -
  have "Patch p w = patchFromCommand p cmd w"
    using assms(1,2) by (rule Patch_set)
  also have "\<dots> = (Some (CommandFailed cmd e),
            w\<lparr>trace := trace w @
                [Run (shell_cmd p cmd w), StdoutWrite (outBuf r), StderrWrite (errBuf r)]\<rparr>)"
    using patchFromCommand_failed [of p w cmd e] assms(3,4) by simp
  finally show ?thesis by simp
qed

theorem C2_failed_command_witness:
  "Patch (scripted (Ran ''partial'' ''boom'' (Some ''exit status 1'')))
         \<lparr>env = [''PATCH_ENV_COMMAND'' \<mapsto> ''false'', ''SHELL'' \<mapsto> ''/bin/sh''], trace = []\<rparr>
     = (Some (CommandFailed ''false'' ''exit status 1''),
        \<lparr>env = [''PATCH_ENV_COMMAND'' \<mapsto> ''false'', ''SHELL'' \<mapsto> ''/bin/sh''],
         trace = [Run \<lparr>Path = ''/bin/sh'', Args = [''/bin/sh'', ''-c'', ''false''], Err = None\<rparr>,
                  StdoutWrite ''partial'', StderrWrite ''boom'']\<rparr>)"
proof -
  let ?p = "scripted (Ran ''partial'' ''boom'' (Some ''exit status 1''))"
  let ?r = "\<lparr>started = True, outBuf = ''partial'', errBuf = ''boom'',
            run_err = Some ''exit status 1''\<rparr>"
  let ?w = "\<lparr>env = [''PATCH_ENV_COMMAND'' \<mapsto> ''false'', ''SHELL'' \<mapsto> ''/bin/sh''], trace = []\<rparr>"
  have h1: "Getenv patchCommandVar ?w = ''false''"
    by (simp add: Getenv_def patchCommandVar_def)
  have h2: "''false'' \<noteq> []" by simp
  have h3: "cmd_Run ?p (env ?w) (shell_cmd ?p ''false'' ?w) = ?r"
    by (rule scripted_Run) simp
  have h4: "run_err ?r = Some ''exit status 1''" by simp
  have c: "shell_cmd ?p ''false'' ?w
      = \<lparr>Path = ''/bin/sh'', Args = [''/bin/sh'', ''-c'', ''false''], Err = None\<rparr>"
    by (simp add: shell_cmd_def Getenv_def shellVar_def Command_def Let_def Base_def)
  show ?thesis
    using C2_failed_command [OF h1 h2 h3 h4] by (simp add: c)
qed

section \<open>With no shell configured\<close>

text \<open>
  C1, as the specification has it, fails: with \<open>SHELL\<close> unset and the command text
  \<open>echo FOO=bar\<close>, the text is not split and no program \<open>echo\<close> is launched with the
  argument \<open>FOO=bar\<close>. The command built has the whole text as its only argument and as
  the name to look up; on a platform whose only program is \<open>echo\<close> the lookup fails, no
  process is started, and the call fails.
\<close>

theorem C1_counterexample:
  "Patch echo_only \<lparr>env = [''PATCH_ENV_COMMAND'' \<mapsto> ''echo FOO=bar''], trace = []\<rparr>
     = (Some (CommandFailed ''echo FOO=bar'' (not_found ''echo FOO=bar'')),
        \<lparr>env = [''PATCH_ENV_COMMAND'' \<mapsto> ''echo FOO=bar''],
         trace = [Run \<lparr>Path = ''echo FOO=bar'', Args = [''echo FOO=bar''],
                       Err = Some (not_found ''echo FOO=bar'')\<rparr>,
                  StdoutWrite [], StderrWrite []]\<rparr>)
   \<and> \<not> started (cmd_Run echo_only [''PATCH_ENV_COMMAND'' \<mapsto> ''echo FOO=bar'']
                   (shell_cmd echo_only ''echo FOO=bar''
                      \<lparr>env = [''PATCH_ENV_COMMAND'' \<mapsto> ''echo FOO=bar''], trace = []\<rparr>))
   \<and> runs (trace (snd (Patch echo_only
         \<lparr>env = [''PATCH_ENV_COMMAND'' \<mapsto> ''echo FOO=bar''], trace = []\<rparr>)))
       \<noteq> [\<lparr>Path = ''/bin/echo'', Args = [''echo'', ''FOO=bar''], Err = None\<rparr>]"
  by (simp add: Patch_def patchFromCommand_def runWithShell_def shell_cmd_def Getenv_def
      patchCommandVar_def shellVar_def Command_def Base_def cmd_Run_def echo_only_def Let_def)

text \<open>
  C1, amended. When \<open>SHELL\<close> is unset or empty and the control variable holds a
  command text, \<open>Patch\<close> does not split the text and uses no shell. It calls
  \<open>cmd.Run()\<close> once, on the command \<open>exec.Command(cmdString)\<close> builds: its argument
  vector is the whole command text and nothing else, and its file is what looking up the
  whole text as one name gives (the text itself when it names a directory, or when
  nothing is found). A process is started only when that command carries no lookup
  error, and then from that file with that one-entry argument vector; when the lookup
  fails, no process is started and \<open>Patch\<close> returns the failure with the lookup error.
\<close>

theorem C1_whole_text_is_one_name:
  assumes "Getenv patchCommandVar w = cmd" and "cmd \<noteq> []" and "Getenv shellVar w = []"
    and "c = Command p (env w) cmd []"
  shows "runs (trace (snd (Patch p w))) = runs (trace w) @ [c]
       \<and> Args c = [cmd]
       \<and> Path c = (if Base cmd = cmd \<and> fst (LookPath p (env w) cmd) \<noteq> []
                   then fst (LookPath p (env w) cmd) else cmd)
       \<and> (started (cmd_Run p (env w) c) \<longrightarrow>
            Err c = None
            \<and> (\<exists>out er werr. StartProcess p (env w) (Path c) [cmd] = Ran out er werr))
       \<and> (\<forall>e. Err c = Some e \<longrightarrow>
            \<not> started (cmd_Run p (env w) c)
            \<and> Patch p w =
                (Some (CommandFailed cmd e),
                 w\<lparr>trace := trace w @ [Run c, StdoutWrite [], StderrWrite []]\<rparr>))"
proof -
  have sc: "shell_cmd p cmd w = c"
    using assms(3,4) by (simp add: shell_cmd_def)
  have 1: "runs (trace (snd (Patch p w))) = runs (trace w) @ [c]"
    using Patch_runs [OF assms(1,2), of p] by (simp add: sc)
  have 2: "Args c = [cmd]"
    using assms(4) by (simp add: Command_def Let_def)
  have 3: "Path c = (if Base cmd = cmd \<and> fst (LookPath p (env w) cmd) \<noteq> []
                   then fst (LookPath p (env w) cmd) else cmd)"
    using assms(4) by (simp add: Command_def Let_def)
  have 4: "Err c = None
            \<and> (\<exists>out er werr. StartProcess p (env w) (Path c) [cmd] = Ran out er werr)"
    if "started (cmd_Run p (env w) c)"
    using that 2 by (auto simp: cmd_Run_def split: if_splits option.splits run_outcome.splits)
  have 5: "\<not> started (cmd_Run p (env w) c)
            \<and> Patch p w =
                (Some (CommandFailed cmd e),
                 w\<lparr>trace := trace w @ [Run c, StdoutWrite [], StderrWrite []]\<rparr>)"
    if e: "Err c = Some e" for e
  proof -
    have r: "cmd_Run p (env w) c
        = \<lparr>started = False, outBuf = [], errBuf = [], run_err = Some e\<rparr>"
      using e by (simp add: cmd_Run_def)
    then have "Patch p w = (Some (CommandFailed cmd e),
                 w\<lparr>trace := trace w @ [Run c, StdoutWrite [], StderrWrite []]\<rparr>)"
      using Patch_set [OF assms(1,2), of p] patchFromCommand_failed [of p w cmd e]
      by (simp add: sc)
    with r show ?thesis by simp
  qed
  from 1 2 3 4 5 show ?thesis by blast
qed

theorem C1_whole_text_is_one_name_witness:
  "runs (trace (snd (Patch echo_only
      \<lparr>env = [''PATCH_ENV_COMMAND'' \<mapsto> ''echo''], trace = []\<rparr>)))
     = [\<lparr>Path = ''/bin/echo'', Args = [''echo''], Err = None\<rparr>]
   \<and> started (cmd_Run echo_only [''PATCH_ENV_COMMAND'' \<mapsto> ''echo'']
                \<lparr>Path = ''/bin/echo'', Args = [''echo''], Err = None\<rparr>)
   \<and> runs (trace (snd (Patch echo_only
      \<lparr>env = [''PATCH_ENV_COMMAND'' \<mapsto> ''echo A=1 B=2''], trace = []\<rparr>)))
     = [\<lparr>Path = ''echo A=1 B=2'', Args = [''echo A=1 B=2''],
         Err = Some (not_found ''echo A=1 B=2'')\<rparr>]
   \<and> fst (Patch echo_only
      \<lparr>env = [''PATCH_ENV_COMMAND'' \<mapsto> ''echo A=1 B=2''], trace = []\<rparr>)
     = Some (CommandFailed ''echo A=1 B=2'' (not_found ''echo A=1 B=2''))"
proof -
  let ?w = "\<lparr>env = [''PATCH_ENV_COMMAND'' \<mapsto> ''echo''], trace = []\<rparr>"
  let ?v = "\<lparr>env = [''PATCH_ENV_COMMAND'' \<mapsto> ''echo A=1 B=2''], trace = []\<rparr>"
  have w1: "Getenv patchCommandVar ?w = ''echo''"
    by (simp add: Getenv_def patchCommandVar_def)
  have w3: "Getenv shellVar ?w = []"
    by (simp add: Getenv_def shellVar_def)
  have wc: "\<lparr>Path = ''/bin/echo'', Args = [''echo''], Err = None\<rparr>
      = Command echo_only (env ?w) ''echo'' []"
    by (simp add: Command_def Base_def echo_only_def Let_def)
  have v1: "Getenv patchCommandVar ?v = ''echo A=1 B=2''"
    by (simp add: Getenv_def patchCommandVar_def)
  have v3: "Getenv shellVar ?v = []"
    by (simp add: Getenv_def shellVar_def)
  have vc: "\<lparr>Path = ''echo A=1 B=2'', Args = [''echo A=1 B=2''],
         Err = Some (not_found ''echo A=1 B=2'')\<rparr>
      = Command echo_only (env ?v) ''echo A=1 B=2'' []"
    by (simp add: Command_def Base_def echo_only_def Let_def)
  have st: "started (cmd_Run echo_only [''PATCH_ENV_COMMAND'' \<mapsto> ''echo'']
                \<lparr>Path = ''/bin/echo'', Args = [''echo''], Err = None\<rparr>)"
    by (simp add: cmd_Run_def echo_only_def)
  note a = C1_whole_text_is_one_name [OF w1 _ w3 wc]
  note b = C1_whole_text_is_one_name [OF v1 _ v3 vc]
  from a have 1: "runs (trace (snd (Patch echo_only ?w)))
      = [\<lparr>Path = ''/bin/echo'', Args = [''echo''], Err = None\<rparr>]"
    by simp
  from b have 2: "runs (trace (snd (Patch echo_only ?v)))
      = [\<lparr>Path = ''echo A=1 B=2'', Args = [''echo A=1 B=2''],
          Err = Some (not_found ''echo A=1 B=2'')\<rparr>]"
    by simp
  from b have 3: "fst (Patch echo_only ?v)
      = Some (CommandFailed ''echo A=1 B=2'' (not_found ''echo A=1 B=2''))"
    by simp
  from 1 st 2 3 show ?thesis by blast
qed

section \<open>Parsing the output and applying it\<close>

text \<open>
  C4, as the specification has it, fails in two ways. A line after a line of
  \<open>MaxScanTokenSize\<close> bytes is never looked at: in the output \<open>A=1\<close>, an over-long
  line, \<open>B=2\<close>, the line \<open>B=2\<close> has an \<open>=\<close> and a key, and \<open>B\<close> is not set. And a line
  whose assignment the system rejects sets nothing: with a NUL byte in the key the
  variable is not set.
\<close>

theorem C4_counterexample:
  "stdout_lines (''A=1\<newline>'' @ overlong @ ''\<newline>B=2\<newline>'') = [''A=1'', overlong, ''B=2'']
   \<and> env (snd (Patch (prints (''A=1\<newline>'' @ overlong @ ''\<newline>B=2\<newline>''))
                 \<lparr>env = [''PATCH_ENV_COMMAND'' \<mapsto> ''x''], trace = []\<rparr>)) ''B'' = None
   \<and> stdout_lines (CHR ''K'' # CHR 0x00 # ''=v\<newline>'') = [CHR ''K'' # CHR 0x00 # ''=v'']
   \<and> env (snd (Patch (prints (CHR ''K'' # CHR 0x00 # ''=v\<newline>''))
                 \<lparr>env = [''PATCH_ENV_COMMAND'' \<mapsto> ''x''], trace = []\<rparr>)) [CHR ''K'', CHR 0x00]
       = None"
proof -
  let ?w = "\<lparr>env = [''PATCH_ENV_COMMAND'' \<mapsto> ''x''], trace = []\<rparr>"
  let ?out = "''A=1\<newline>'' @ overlong @ ''\<newline>B=2\<newline>''"
  let ?nul = "CHR ''K'' # CHR 0x00 # ''=v\<newline>''"
  have l1: "stdout_lines ?out = [''A=1'', overlong, ''B=2'']"
    using stdout_lines_terminated [of "[''A=1'', overlong, ''B=2'']"] by simp
  have l2: "stdout_lines ?nul = [CHR ''K'' # CHR 0x00 # ''=v'']"
    using stdout_lines_terminated [of "[CHR ''K'' # CHR 0x00 # ''=v'']"] by simp
  have a: "loop_body (prints ?out) (''A'' @ CHR ''='' # ''1'') w'
      = w'\<lparr>env := (env w')(''A'' \<mapsto> ''1'')\<rparr>" for w'
    by (rule prints_assigns) simp_all
  have "Patch (prints ?out) ?w =
      (None, \<lparr>env = [''PATCH_ENV_COMMAND'' \<mapsto> ''x'', ''A'' \<mapsto> ''1''],
              trace = [Run \<lparr>Path = ''/usr/bin/x'', Args = [''x''], Err = None\<rparr>]\<rparr>)"
    using a by (simp add: Patch_prints l1 [simplified] dropCR_def MaxScanTokenSize_def)
  then have 1: "env (snd (Patch (prints ?out) ?w)) ''B'' = None"
    by simp
  have k: "loop_body (prints ?nul) ([CHR ''K'', CHR 0x00] @ CHR ''='' # ''v'') w'
      = w'\<lparr>trace := trace w' @ [LogPrintf (SetenvReturnedError [CHR ''K'', CHR 0x00] ''v''
                                        ''setenv: invalid argument'')]\<rparr>" for w'
    by (subst loop_body_assignment) (simp_all add: prints_rejects)
  have 2: "env (snd (Patch (prints ?nul) ?w)) [CHR ''K'', CHR 0x00] = None"
    using k by (simp add: Patch_prints l2 [simplified] dropCR_def MaxScanTokenSize_def)
  from l1 1 l2 2 show ?thesis by blast
qed

text \<open>
  C4, amended. Take any line of the output that the scanner reaches (neither it nor a
  line before it has \<open>MaxScanTokenSize\<close> bytes or more) and that, once the scanner has
  taken a trailing carriage return off it, contains \<open>=\<close> with some text before the first
  \<open>=\<close>. If \<open>os.Setenv\<close> accepts the assignment, \<open>Patch\<close> sets the variable named by the
  text before the first \<open>=\<close> to exactly the text after it, whatever that text is: the
  environment right after the line maps that name to that value, and the call goes on
  from there with the lines that follow and returns success.
\<close>

theorem C4_line_sets_key_to_value:
  assumes "Getenv patchCommandVar w = cmd" and "cmd \<noteq> []"
    and "cmd_Run p (env w) (shell_cmd p cmd w) = r" and "run_err r = None"
    and "stdout_lines (outBuf r) = pre @ raw # post"
    and "\<forall>l \<in> set pre. length l < MaxScanTokenSize" and "length raw < MaxScanTokenSize"
    and "line = dropCR raw" and "CHR ''='' \<in> set line"
    and "key = takeWhile (\<lambda>c. c \<noteq> CHR ''='') line" and "key \<noteq> []"
    and "val = tl (dropWhile (\<lambda>c. c \<noteq> CHR ''='') line)"
    and "syscall_Setenv p key val = None"
    and "before = apply_lines p (map dropCR pre) (w\<lparr>trace := trace w @ [Run (shell_cmd p cmd w)]\<rparr>)"
  shows "Patch p w =
           (None,
            apply_lines p (map dropCR (takeWhile (\<lambda>l. length l < MaxScanTokenSize) post))
              (before\<lparr>env := (env before)(key \<mapsto> val)\<rparr>))"
proof -
  have line: "dropCR raw = key @ CHR ''='' # val"
    using assms(8,9,10,12) line_decomposition [of line] by simp
  have nokey: "CHR ''='' \<notin> set key"
    using assms(10) by (auto dest: set_takeWhileD)
  have "loop_body p (dropCR raw) before = before\<lparr>env := (env before)(key \<mapsto> val)\<rparr>"
    using assms(13) by (simp add: line loop_body_assignment [OF nokey assms(11)])
  then show ?thesis
    using Patch_reaches_line [OF assms(1-7)] assms(14) by simp
qed

theorem C4_line_sets_key_to_value_witness:
  "Patch (prints ''A=1\<newline>HINT=a b = c\<newline>'')
         \<lparr>env = [''PATCH_ENV_COMMAND'' \<mapsto> ''x''], trace = []\<rparr>
     = (None,
        \<lparr>env = [''PATCH_ENV_COMMAND'' \<mapsto> ''x'', ''A'' \<mapsto> ''1'', ''HINT'' \<mapsto> ''a b = c''],
         trace = [Run \<lparr>Path = ''/usr/bin/x'', Args = [''x''], Err = None\<rparr>]\<rparr>)"
proof -
  let ?out = "''A=1\<newline>HINT=a b = c\<newline>''"
  let ?p = "prints ?out"
  let ?w = "\<lparr>env = [''PATCH_ENV_COMMAND'' \<mapsto> ''x''], trace = []\<rparr>"
  let ?r = "\<lparr>started = True, outBuf = ?out, errBuf = [], run_err = None\<rparr>"
  have h1: "Getenv patchCommandVar ?w = ''x''"
    by (simp add: Getenv_def patchCommandVar_def)
  have h2: "''x'' \<noteq> []" by simp
  have h3: "cmd_Run ?p (env ?w) (shell_cmd ?p ''x'' ?w) = ?r"
    unfolding prints_def by (rule scripted_Run) simp
  have h4: "run_err ?r = None" by simp
  have h5: "stdout_lines (outBuf ?r) = [''A=1''] @ ''HINT=a b = c'' # []"
    using stdout_lines_terminated [of "[''A=1'', ''HINT=a b = c'']"] by simp
  have h6: "\<forall>l \<in> set [''A=1'']. length l < MaxScanTokenSize"
    by (simp add: MaxScanTokenSize_def)
  have h7: "length ''HINT=a b = c'' < MaxScanTokenSize"
    by (simp add: MaxScanTokenSize_def)
  have h8: "''HINT=a b = c'' = dropCR ''HINT=a b = c''" by (simp add: dropCR_def)
  have h9: "CHR ''='' \<in> set ''HINT=a b = c''" by simp
  have h10: "''HINT'' = takeWhile (\<lambda>c. c \<noteq> CHR ''='') ''HINT=a b = c''" by simp
  have h11: "''HINT'' \<noteq> []" by simp
  have h12: "''a b = c'' = tl (dropWhile (\<lambda>c. c \<noteq> CHR ''='') ''HINT=a b = c'')" by simp
  have h13: "syscall_Setenv ?p ''HINT'' ''a b = c'' = None"
    by (rule prints_accepts) simp_all
  have c: "shell_cmd ?p ''x'' ?w = \<lparr>Path = ''/usr/bin/x'', Args = [''x''], Err = None\<rparr>"
    unfolding prints_def by (rule x_cmd) simp
  have a: "loop_body ?p (''A'' @ CHR ''='' # ''1'') w' = w'\<lparr>env := (env w')(''A'' \<mapsto> ''1'')\<rparr>" for w'
    by (rule prints_assigns) simp_all
  show ?thesis
    using C4_line_sets_key_to_value [OF h1 h2 h3 h4 h5 h6 h7 h8 h9 h10 h11 h12 h13 refl] a
    by (simp add: c dropCR_def)
qed

text \<open>
  C5, as the specification has it, fails on a line of \<open>MaxScanTokenSize\<close> bytes or
  more. In the output \<open>A=1\<close>, an over-long line with no \<open>=\<close> in it, \<open>B=2\<close>, the
  over-long line is malformed and no warning is logged for it, and the well-formed line
  \<open>B=2\<close> is not applied.
\<close>

theorem C5_counterexample:
  "stdout_lines (''A=1\<newline>'' @ overlong @ ''\<newline>B=2\<newline>'') = [''A=1'', overlong, ''B=2'']
   \<and> CHR ''='' \<notin> set overlong
   \<and> Patch (prints (''A=1\<newline>'' @ overlong @ ''\<newline>B=2\<newline>''))
            \<lparr>env = [''PATCH_ENV_COMMAND'' \<mapsto> ''x''], trace = []\<rparr>
       = (None,
          \<lparr>env = [''PATCH_ENV_COMMAND'' \<mapsto> ''x'', ''A'' \<mapsto> ''1''],
           trace = [Run \<lparr>Path = ''/usr/bin/x'', Args = [''x''], Err = None\<rparr>]\<rparr>)"
proof -
  let ?w = "\<lparr>env = [''PATCH_ENV_COMMAND'' \<mapsto> ''x''], trace = []\<rparr>"
  let ?out = "''A=1\<newline>'' @ overlong @ ''\<newline>B=2\<newline>''"
  have l1: "stdout_lines ?out = [''A=1'', overlong, ''B=2'']"
    using stdout_lines_terminated [of "[''A=1'', overlong, ''B=2'']"] by simp
  have a: "loop_body (prints ?out) (''A'' @ CHR ''='' # ''1'') w'
      = w'\<lparr>env := (env w')(''A'' \<mapsto> ''1'')\<rparr>" for w'
    by (rule prints_assigns) simp_all
  have "Patch (prints ?out) ?w =
      (None, \<lparr>env = [''PATCH_ENV_COMMAND'' \<mapsto> ''x'', ''A'' \<mapsto> ''1''],
              trace = [Run \<lparr>Path = ''/usr/bin/x'', Args = [''x''], Err = None\<rparr>]\<rparr>)"
    using a by (simp add: Patch_prints l1 [simplified] dropCR_def MaxScanTokenSize_def)
  with l1 show ?thesis by simp
qed

text \<open>
  C5, amended. When the command exits with status zero, \<open>Patch\<close> returns success, whatever
  the lines are. For every line of the output that the scanner reaches (neither it nor a
  line before it has \<open>MaxScanTokenSize\<close> bytes or more) and that, with a trailing carriage
  return taken off, has no \<open>=\<close> in it or nothing before its first \<open>=\<close>: what \<open>Patch\<close>
  does at that line is to log one warning carrying the line verbatim, and nothing else,
  and it goes on with the lines after it. The environment after the call is the one
  that the well-formed lines among those the scanner reaches produce by themselves.
\<close>

theorem C5_malformed_lines_are_skipped:
  assumes "Getenv patchCommandVar w = cmd" and "cmd \<noteq> []"
    and "cmd_Run p (env w) (shell_cmd p cmd w) = r" and "run_err r = None"
  shows "fst (Patch p w) = None
       \<and> (\<forall>pre raw post.
             stdout_lines (outBuf r) = pre @ raw # post
             \<and> (\<forall>l \<in> set pre. length l < MaxScanTokenSize) \<and> length raw < MaxScanTokenSize
             \<and> (CHR ''='' \<notin> set (dropCR raw)
                  \<or> takeWhile (\<lambda>c. c \<noteq> CHR ''='') (dropCR raw) = []) \<longrightarrow>
             Patch p w =
               (None,
                apply_lines p (map dropCR (takeWhile (\<lambda>l. length l < MaxScanTokenSize) post))
                  ((apply_lines p (map dropCR pre)
                      (w\<lparr>trace := trace w @ [Run (shell_cmd p cmd w)]\<rparr>))
                     \<lparr>trace := trace (apply_lines p (map dropCR pre)
                                       (w\<lparr>trace := trace w @ [Run (shell_cmd p cmd w)]\<rparr>))
                                @ [LogPrintf (InvalidOutputLine (dropCR raw))]\<rparr>)))
       \<and> env (snd (Patch p w)) =
           env (apply_lines p
                  (filter (\<lambda>l. CHR ''='' \<in> set l \<and> takeWhile (\<lambda>c. c \<noteq> CHR ''='') l \<noteq> [])
                     (map dropCR (takeWhile (\<lambda>l. length l < MaxScanTokenSize)
                                    (stdout_lines (outBuf r))))) w)"
proof -
  let ?w1 = "w\<lparr>trace := trace w @ [Run (shell_cmd p cmd w)]\<rparr>"
  let ?ls = "map dropCR (takeWhile (\<lambda>l. length l < MaxScanTokenSize) (stdout_lines (outBuf r)))"
  have P: "Patch p w = (None, apply_lines p ?ls ?w1)"
    using Patch_exit_zero [OF assms] by (simp add: scanned_lines_stdout_lines)
  have 1: "fst (Patch p w) = None"
    by (simp add: P)
  have 2: "Patch p w =
               (None,
                apply_lines p (map dropCR (takeWhile (\<lambda>l. length l < MaxScanTokenSize) post))
                  ((apply_lines p (map dropCR pre) ?w1)
                     \<lparr>trace := trace (apply_lines p (map dropCR pre) ?w1)
                                @ [LogPrintf (InvalidOutputLine (dropCR raw))]\<rparr>))"
    if "stdout_lines (outBuf r) = pre @ raw # post"
      and "\<forall>l \<in> set pre. length l < MaxScanTokenSize" and "length raw < MaxScanTokenSize"
      and "CHR ''='' \<notin> set (dropCR raw) \<or> takeWhile (\<lambda>c. c \<noteq> CHR ''='') (dropCR raw) = []"
    for pre raw post
    using Patch_reaches_line [OF assms that(1-3)] loop_body_invalid [OF that(4)]
    by simp
  have 3: "env (snd (Patch p w)) =
      env (apply_lines p
             (filter (\<lambda>l. CHR ''='' \<in> set l \<and> takeWhile (\<lambda>c. c \<noteq> CHR ''='') l \<noteq> []) ?ls) w)"
    unfolding P snd_conv by (rule apply_lines_env_filter) simp
  from 1 2 3 show ?thesis by blast
qed

theorem C5_malformed_lines_are_skipped_witness:
  "Patch (prints ''NOVALUE\<newline>FOO=bar\<newline>=novalue\<newline>'')
         \<lparr>env = [''PATCH_ENV_COMMAND'' \<mapsto> ''x''], trace = []\<rparr>
     = (None,
        \<lparr>env = [''PATCH_ENV_COMMAND'' \<mapsto> ''x'', ''FOO'' \<mapsto> ''bar''],
         trace = [Run \<lparr>Path = ''/usr/bin/x'', Args = [''x''], Err = None\<rparr>,
                  LogPrintf (InvalidOutputLine ''NOVALUE''),
                  LogPrintf (InvalidOutputLine ''=novalue'')]\<rparr>)"
proof -
  let ?out = "''NOVALUE\<newline>FOO=bar\<newline>=novalue\<newline>''"
  let ?p = "prints ?out"
  let ?w = "\<lparr>env = [''PATCH_ENV_COMMAND'' \<mapsto> ''x''], trace = []\<rparr>"
  let ?r = "\<lparr>started = True, outBuf = ?out, errBuf = [], run_err = None\<rparr>"
  have h1: "Getenv patchCommandVar ?w = ''x''"
    by (simp add: Getenv_def patchCommandVar_def)
  have h2: "''x'' \<noteq> []" by simp
  have h3: "cmd_Run ?p (env ?w) (shell_cmd ?p ''x'' ?w) = ?r"
    unfolding prints_def by (rule scripted_Run) simp
  have h4: "run_err ?r = None" by simp
  have ls: "stdout_lines (outBuf ?r) = [] @ ''NOVALUE'' # [''FOO=bar'', ''=novalue'']"
    using stdout_lines_terminated [of "[''NOVALUE'', ''FOO=bar'', ''=novalue'']"] by simp
  have c: "shell_cmd ?p ''x'' ?w = \<lparr>Path = ''/usr/bin/x'', Args = [''x''], Err = None\<rparr>"
    unfolding prints_def by (rule x_cmd) simp
  have foo: "loop_body ?p (''FOO'' @ CHR ''='' # ''bar'') w'
      = w'\<lparr>env := (env w')(''FOO'' \<mapsto> ''bar'')\<rparr>" for w'
    by (rule prints_assigns) simp_all
  have nv: "loop_body ?p ''=novalue'' w'
      = w'\<lparr>trace := trace w' @ [LogPrintf (InvalidOutputLine ''=novalue'')]\<rparr>" for w'
    by (rule loop_body_invalid) simp
  show ?thesis
    using C5_malformed_lines_are_skipped [OF h1 h2 h3 h4, THEN conjunct2, THEN conjunct1,
        rule_format, of "[]" "''NOVALUE''" "[''FOO=bar'', ''=novalue'']"] ls foo nv
    by (simp add: c dropCR_def MaxScanTokenSize_def)
qed



text \<open>
  C8, as the specification has it, fails: the scanner hands an empty line to the loop
  like any other, and the loop body logs its warning for it. An output that is a single
  newline has one line, the empty one, and gives one warning, with the empty text.
\<close>

theorem C8_counterexample:
  "stdout_lines ''\<newline>'' = [[]]
   \<and> Patch (prints ''\<newline>'') \<lparr>env = [''PATCH_ENV_COMMAND'' \<mapsto> ''x''], trace = []\<rparr>
       = (None,
          \<lparr>env = [''PATCH_ENV_COMMAND'' \<mapsto> ''x''],
           trace = [Run \<lparr>Path = ''/usr/bin/x'', Args = [''x''], Err = None\<rparr>,
                    LogPrintf (InvalidOutputLine [])]\<rparr>)"
proof -
  have ls: "stdout_lines ''\<newline>'' = [[]]"
    using stdout_lines_terminated [of "[[]]"] by simp
  then show ?thesis
    by (simp add: Patch_prints dropCR_def MaxScanTokenSize_def loop_body_invalid)
qed

text \<open>
  C8, amended. An empty line is not passed over: for every empty line of the output
  that the scanner reaches (no line before it has \<open>MaxScanTokenSize\<close> bytes or more),
  what \<open>Patch\<close> does at that line is to log the invalid-line warning, with the empty
  text; it changes no environment variable there, and goes on with the lines after it.
\<close>

theorem C8_empty_lines_are_warned_about:
  assumes "Getenv patchCommandVar w = cmd" and "cmd \<noteq> []"
    and "cmd_Run p (env w) (shell_cmd p cmd w) = r" and "run_err r = None"
    and "stdout_lines (outBuf r) = pre @ [] # post"
    and "\<forall>l \<in> set pre. length l < MaxScanTokenSize"
    and "before = apply_lines p (map dropCR pre) (w\<lparr>trace := trace w @ [Run (shell_cmd p cmd w)]\<rparr>)"
  shows "Patch p w =
           (None,
            apply_lines p (map dropCR (takeWhile (\<lambda>l. length l < MaxScanTokenSize) post))
              (before\<lparr>trace := trace before @ [LogPrintf (InvalidOutputLine [])]\<rparr>))"
proof -
  have short: "length ([] :: string) < MaxScanTokenSize"
    by (simp add: MaxScanTokenSize_def)
  have "loop_body p (dropCR []) before
      = before\<lparr>trace := trace before @ [LogPrintf (InvalidOutputLine [])]\<rparr>"
    by (simp add: dropCR_def loop_body_invalid)
  then show ?thesis
    using Patch_reaches_line [OF assms(1-6) short] assms(7) by simp
qed

theorem C8_empty_lines_are_warned_about_witness:
  "Patch (prints ''A=1\<newline>\<newline>B=2\<newline>'')
         \<lparr>env = [''PATCH_ENV_COMMAND'' \<mapsto> ''x''], trace = []\<rparr>
     = (None,
        \<lparr>env = [''PATCH_ENV_COMMAND'' \<mapsto> ''x'', ''A'' \<mapsto> ''1'', ''B'' \<mapsto> ''2''],
         trace = [Run \<lparr>Path = ''/usr/bin/x'', Args = [''x''], Err = None\<rparr>,
                  LogPrintf (InvalidOutputLine [])]\<rparr>)"
proof -
  let ?out = "''A=1\<newline>\<newline>B=2\<newline>''"
  let ?p = "prints ?out"
  let ?w = "\<lparr>env = [''PATCH_ENV_COMMAND'' \<mapsto> ''x''], trace = []\<rparr>"
  let ?r = "\<lparr>started = True, outBuf = ?out, errBuf = [], run_err = None\<rparr>"
  have h1: "Getenv patchCommandVar ?w = ''x''"
    by (simp add: Getenv_def patchCommandVar_def)
  have h2: "''x'' \<noteq> []" by simp
  have h3: "cmd_Run ?p (env ?w) (shell_cmd ?p ''x'' ?w) = ?r"
    unfolding prints_def by (rule scripted_Run) simp
  have h4: "run_err ?r = None" by simp
  have h5: "stdout_lines (outBuf ?r) = [''A=1''] @ [] # [''B=2'']"
    using stdout_lines_terminated [of "[''A=1'', [], ''B=2'']"] by simp
  have h6: "\<forall>l \<in> set [''A=1'']. length l < MaxScanTokenSize"
    by (simp add: MaxScanTokenSize_def)
  have cmd: "shell_cmd ?p ''x'' ?w = \<lparr>Path = ''/usr/bin/x'', Args = [''x''], Err = None\<rparr>"
    unfolding prints_def by (rule x_cmd) simp
  have a: "loop_body ?p (''A'' @ CHR ''='' # ''1'') w' = w'\<lparr>env := (env w')(''A'' \<mapsto> ''1'')\<rparr>" for w'
    by (rule prints_assigns) simp_all
  have b: "loop_body ?p (''B'' @ CHR ''='' # ''2'') w' = w'\<lparr>env := (env w')(''B'' \<mapsto> ''2'')\<rparr>" for w'
    by (rule prints_assigns) simp_all
  show ?thesis
    using C8_empty_lines_are_warned_about [OF h1 h2 h3 h4 h5 h6 refl] a b
    by (simp add: cmd dropCR_def MaxScanTokenSize_def)
qed

text \<open>
  C10, as the specification has it, fails: one byte of white space can be taken off a
  value. The scanner removes a carriage return at the end of a line, so for the output
  \<open>K=v\<close> followed by a carriage return (and no newline) the line is those four bytes,
  the text after its \<open>=\<close> is \<open>v\<close> and the carriage return, and the value stored is
  \<open>v\<close> alone.
\<close>

theorem C10_counterexample:
  "stdout_lines (''K=v'' @ [CHR 0x0D]) = [''K=v'' @ [CHR 0x0D]]
   \<and> tl (dropWhile (\<lambda>c. c \<noteq> CHR ''='') (''K=v'' @ [CHR 0x0D])) = ''v'' @ [CHR 0x0D]
   \<and> env (snd (Patch (prints (''K=v'' @ [CHR 0x0D]))
                 \<lparr>env = [''PATCH_ENV_COMMAND'' \<mapsto> ''x''], trace = []\<rparr>)) ''K'' = Some ''v''"
proof -
  have ls: "stdout_lines (''K=v'' @ [CHR 0x0D]) = [''K=v'' @ [CHR 0x0D]]"
    by (rule stdout_lines_last) simp_all
  have k: "loop_body (prints (''K=v'' @ [CHR 0x0D])) (''K'' @ CHR ''='' # ''v'') w'
      = w'\<lparr>env := (env w')(''K'' \<mapsto> ''v'')\<rparr>" for w'
    by (rule prints_assigns) simp_all
  have "env (snd (Patch (prints (''K=v'' @ [CHR 0x0D]))
                 \<lparr>env = [''PATCH_ENV_COMMAND'' \<mapsto> ''x''], trace = []\<rparr>)) ''K'' = Some ''v''"
    using k by (simp add: Patch_prints ls [simplified] dropCR_def MaxScanTokenSize_def)
  with ls show ?thesis by simp
qed

text \<open>
  C10, amended. Apart from one carriage return at the very end of a line, which the
  scanner removes with the line terminator, nothing trims a key or a value. For every
  line of the output that the scanner reaches (neither it nor a line before it has
  \<open>MaxScanTokenSize\<close> bytes or more) and that is a non-empty key without \<open>=\<close>, an \<open>=\<close> and
  a value, optionally followed by that one carriage return: if \<open>os.Setenv\<close> accepts
  the assignment, \<open>Patch\<close> sets exactly that key, with every space in it, to exactly
  that value, and no other name, so the name with its spaces is a variable of its own
  and the name without them keeps what it had.
\<close>

theorem C10_no_trimming:
  assumes "Getenv patchCommandVar w = cmd" and "cmd \<noteq> []"
    and "cmd_Run p (env w) (shell_cmd p cmd w) = r" and "run_err r = None"
    and "stdout_lines (outBuf r) = pre @ raw # post"
    and "\<forall>l \<in> set pre. length l < MaxScanTokenSize" and "length raw < MaxScanTokenSize"
    and "raw = k @ CHR ''='' # v \<and> (v = [] \<or> last v \<noteq> CHR 0x0D)
         \<or> raw = k @ CHR ''='' # v @ [CHR 0x0D]"
    and "CHR ''='' \<notin> set k" and "k \<noteq> []"
    and "syscall_Setenv p k v = None"
    and "before = apply_lines p (map dropCR pre) (w\<lparr>trace := trace w @ [Run (shell_cmd p cmd w)]\<rparr>)"
  shows "Patch p w =
           (None,
            apply_lines p (map dropCR (takeWhile (\<lambda>l. length l < MaxScanTokenSize) post))
              (before\<lparr>env := (env before)(k \<mapsto> v)\<rparr>))"
proof -
  have "dropCR raw = k @ CHR ''='' # v"
    using assms(8)
  proof
    assume a: "raw = k @ CHR ''='' # v \<and> (v = [] \<or> last v \<noteq> CHR 0x0D)"
    then have "last raw \<noteq> CHR 0x0D"
      by (cases "v = []") simp_all
    with a show ?thesis by (simp add: dropCR_def)
  next
    assume a: "raw = k @ CHR ''='' # v @ [CHR 0x0D]"
    then have "butlast raw = k @ CHR ''='' # v"
      by (simp add: butlast_append)
    with a show ?thesis by (simp add: dropCR_def)
  qed
  then have "loop_body p (dropCR raw) before = before\<lparr>env := (env before)(k \<mapsto> v)\<rparr>"
    using assms(11) by (simp add: loop_body_assignment [OF assms(9,10)])
  then show ?thesis
    using Patch_reaches_line [OF assms(1-7)] assms(12) by simp
qed

theorem C10_no_trimming_witness:
  "Patch (prints '' FOO = bar \<newline>'')
         \<lparr>env = [''PATCH_ENV_COMMAND'' \<mapsto> ''x'', ''FOO'' \<mapsto> ''old''], trace = []\<rparr>
     = (None,
        \<lparr>env = [''PATCH_ENV_COMMAND'' \<mapsto> ''x'', ''FOO'' \<mapsto> ''old'', '' FOO '' \<mapsto> '' bar ''],
         trace = [Run \<lparr>Path = ''/usr/bin/x'', Args = [''x''], Err = None\<rparr>]\<rparr>)"
proof -
  let ?out = "'' FOO = bar \<newline>''"
  let ?p = "prints ?out"
  let ?w = "\<lparr>env = [''PATCH_ENV_COMMAND'' \<mapsto> ''x'', ''FOO'' \<mapsto> ''old''], trace = []\<rparr>"
  let ?r = "\<lparr>started = True, outBuf = ?out, errBuf = [], run_err = None\<rparr>"
  have h1: "Getenv patchCommandVar ?w = ''x''"
    by (simp add: Getenv_def patchCommandVar_def)
  have h2: "''x'' \<noteq> []" by simp
  have h3: "cmd_Run ?p (env ?w) (shell_cmd ?p ''x'' ?w) = ?r"
    unfolding prints_def by (rule scripted_Run) simp
  have h4: "run_err ?r = None" by simp
  have h5: "stdout_lines (outBuf ?r) = [] @ '' FOO = bar '' # []"
    using stdout_lines_terminated [of "['' FOO = bar '']"] by simp
  have h6: "\<forall>l \<in> set ([] :: string list). length l < MaxScanTokenSize" by simp
  have h7: "length '' FOO = bar '' < MaxScanTokenSize"
    by (simp add: MaxScanTokenSize_def)
  have h8: "'' FOO = bar '' = '' FOO '' @ CHR ''='' # '' bar ''
              \<and> ('' bar '' = [] \<or> last '' bar '' \<noteq> CHR 0x0D)
            \<or> '' FOO = bar '' = '' FOO '' @ CHR ''='' # '' bar '' @ [CHR 0x0D]"
    by simp
  have h9: "CHR ''='' \<notin> set '' FOO ''" by simp
  have h10: "'' FOO '' \<noteq> []" by simp
  have h11: "syscall_Setenv ?p '' FOO '' '' bar '' = None"
    by (rule prints_accepts) simp_all
  have cmd: "shell_cmd ?p ''x'' ?w = \<lparr>Path = ''/usr/bin/x'', Args = [''x''], Err = None\<rparr>"
    unfolding prints_def by (rule x_cmd) simp
  show ?thesis
    using C10_no_trimming [OF h1 h2 h3 h4 h5 h6 h7 h8 h9 h10 h11 refl]
    by (simp add: cmd [simplified])
qed

text \<open>
  C6, as the specification has it, fails in two ways. In the output \<open>FOO=bar\<close>, an
  over-long line, \<open>FOO=baz\<close>, two lines assign \<open>FOO\<close> and the value after the call is
  that of the earlier one, because the scanner never reaches the later one. And in the
  output \<open>FOO=bar\<close>, \<open>FOO=\<close> with a value that has a NUL byte in it, the later
  assignment is rejected and the earlier value stays.
\<close>

theorem C6_counterexample:
  "stdout_lines (''FOO=bar\<newline>'' @ overlong @ ''\<newline>FOO=baz\<newline>'')
     = [''FOO=bar'', overlong, ''FOO=baz'']
   \<and> env (snd (Patch (prints (''FOO=bar\<newline>'' @ overlong @ ''\<newline>FOO=baz\<newline>''))
                 \<lparr>env = [''PATCH_ENV_COMMAND'' \<mapsto> ''x''], trace = []\<rparr>)) ''FOO'' = Some ''bar''
   \<and> stdout_lines (''FOO=bar\<newline>FOO=b'' @ CHR 0x00 # ''\<newline>'')
     = [''FOO=bar'', ''FOO=b'' @ [CHR 0x00]]
   \<and> env (snd (Patch (prints (''FOO=bar\<newline>FOO=b'' @ CHR 0x00 # ''\<newline>''))
                 \<lparr>env = [''PATCH_ENV_COMMAND'' \<mapsto> ''x''], trace = []\<rparr>)) ''FOO'' = Some ''bar''"
proof -
  let ?w = "\<lparr>env = [''PATCH_ENV_COMMAND'' \<mapsto> ''x''], trace = []\<rparr>"
  let ?out = "''FOO=bar\<newline>'' @ overlong @ ''\<newline>FOO=baz\<newline>''"
  let ?nul = "''FOO=bar\<newline>FOO=b'' @ CHR 0x00 # ''\<newline>''"
  have l1: "stdout_lines ?out = [''FOO=bar'', overlong, ''FOO=baz'']"
    using stdout_lines_terminated [of "[''FOO=bar'', overlong, ''FOO=baz'']"] by simp
  have l2: "stdout_lines ?nul = [''FOO=bar'', ''FOO=b'' @ [CHR 0x00]]"
    using stdout_lines_terminated [of "[''FOO=bar'', ''FOO=b'' @ [CHR 0x00]]"] by simp
  have a: "loop_body (prints out) (''FOO'' @ CHR ''='' # ''bar'') w'
      = w'\<lparr>env := (env w')(''FOO'' \<mapsto> ''bar'')\<rparr>" for w' out
    by (rule prints_assigns) simp_all
  have b: "loop_body (prints out) (''FOO'' @ CHR ''='' # [CHR ''b'', CHR 0x00]) w'
      = w'\<lparr>trace := trace w' @ [LogPrintf (SetenvReturnedError ''FOO'' [CHR ''b'', CHR 0x00]
                                        ''setenv: invalid argument'')]\<rparr>" for w' out
    by (subst loop_body_assignment) (simp_all add: prints_rejects)
  have 1: "env (snd (Patch (prints ?out) ?w)) ''FOO'' = Some ''bar''"
    using a by (simp add: Patch_prints l1 [simplified] dropCR_def MaxScanTokenSize_def)
  have 2: "env (snd (Patch (prints ?nul) ?w)) ''FOO'' = Some ''bar''"
    using a b by (simp add: Patch_prints l2 [simplified] dropCR_def MaxScanTokenSize_def)
  from l1 1 l2 2 show ?thesis by blast
qed

text \<open>
  C6, amended. Lines take effect in the order of the output. When several lines assign
  the same key, the value the key has after \<open>Patch\<close> returns is that of the last of them
  that the scanner reaches (neither it nor a line before it has \<open>MaxScanTokenSize\<close>
  bytes or more) and whose assignment \<open>os.Setenv\<close> accepts: it overrides what the
  lines before it did to the key and whatever the key held before the call.
\<close>

theorem C6_last_write_wins:
  assumes "Getenv patchCommandVar w = cmd" and "cmd \<noteq> []"
    and "cmd_Run p (env w) (shell_cmd p cmd w) = r" and "run_err r = None"
    and "stdout_lines (outBuf r) = pre @ raw # post"
    and "\<forall>l \<in> set pre. length l < MaxScanTokenSize" and "length raw < MaxScanTokenSize"
    and "dropCR raw = k @ CHR ''='' # v"
    and "CHR ''='' \<notin> set k" and "k \<noteq> []" and "syscall_Setenv p k v = None"
    and "\<forall>l \<in> set (takeWhile (\<lambda>l. length l < MaxScanTokenSize) post).
           \<forall>v'. dropCR l = k @ CHR ''='' # v' \<longrightarrow> syscall_Setenv p k v' \<noteq> None"
  shows "fst (Patch p w) = None \<and> env (snd (Patch p w)) k = Some v"
proof -
  let ?before = "apply_lines p (map dropCR pre) (w\<lparr>trace := trace w @ [Run (shell_cmd p cmd w)]\<rparr>)"
  let ?rest = "map dropCR (takeWhile (\<lambda>l. length l < MaxScanTokenSize) post)"
  have "loop_body p (dropCR raw) ?before = ?before\<lparr>env := (env ?before)(k \<mapsto> v)\<rparr>"
    using assms(11) by (simp add: assms(8) loop_body_assignment [OF assms(9,10)])
  then have P: "Patch p w = (None, apply_lines p ?rest (?before\<lparr>env := (env ?before)(k \<mapsto> v)\<rparr>))"
    using Patch_reaches_line [OF assms(1-7)] by simp
  have "\<forall>l \<in> set ?rest. \<forall>v'. l = k @ CHR ''='' # v' \<longrightarrow> syscall_Setenv p k v' \<noteq> None"
    using assms(12) by auto
  then have "env (apply_lines p ?rest (?before\<lparr>env := (env ?before)(k \<mapsto> v)\<rparr>)) k
      = env (?before\<lparr>env := (env ?before)(k \<mapsto> v)\<rparr>) k"
    by (rule apply_lines_env_unassigned)
  with P show ?thesis by simp
qed

theorem C6_last_write_wins_witness:
  "fst (Patch (prints ''FOO=bar\<newline>X=1\<newline>FOO=baz\<newline>Y=2\<newline>'')
          \<lparr>env = [''PATCH_ENV_COMMAND'' \<mapsto> ''x'', ''FOO'' \<mapsto> ''old''], trace = []\<rparr>)
     = None
   \<and> env (snd (Patch (prints ''FOO=bar\<newline>X=1\<newline>FOO=baz\<newline>Y=2\<newline>'')
               \<lparr>env = [''PATCH_ENV_COMMAND'' \<mapsto> ''x'', ''FOO'' \<mapsto> ''old''], trace = []\<rparr>)) ''FOO''
     = Some ''baz''"
proof -
  let ?out = "''FOO=bar\<newline>X=1\<newline>FOO=baz\<newline>Y=2\<newline>''"
  let ?p = "prints ?out"
  let ?w = "\<lparr>env = [''PATCH_ENV_COMMAND'' \<mapsto> ''x'', ''FOO'' \<mapsto> ''old''], trace = []\<rparr>"
  let ?r = "\<lparr>started = True, outBuf = ?out, errBuf = [], run_err = None\<rparr>"
  have h1: "Getenv patchCommandVar ?w = ''x''"
    by (simp add: Getenv_def patchCommandVar_def)
  have h2: "''x'' \<noteq> []" by simp
  have h3: "cmd_Run ?p (env ?w) (shell_cmd ?p ''x'' ?w) = ?r"
    unfolding prints_def by (rule scripted_Run) simp
  have h4: "run_err ?r = None" by simp
  have h5: "stdout_lines (outBuf ?r) = [''FOO=bar'', ''X=1''] @ ''FOO=baz'' # [''Y=2'']"
    using stdout_lines_terminated [of "[''FOO=bar'', ''X=1'', ''FOO=baz'', ''Y=2'']"] by simp
  have h6: "\<forall>l \<in> set [''FOO=bar'', ''X=1'']. length l < MaxScanTokenSize"
    by (simp add: MaxScanTokenSize_def)
  have h7: "length ''FOO=baz'' < MaxScanTokenSize"
    by (simp add: MaxScanTokenSize_def)
  have h8: "dropCR ''FOO=baz'' = ''FOO'' @ CHR ''='' # ''baz''"
    by (simp add: dropCR_def)
  have h9: "CHR ''='' \<notin> set ''FOO''" by simp
  have h10: "''FOO'' \<noteq> []" by simp
  have h11: "syscall_Setenv ?p ''FOO'' ''baz'' = None"
    by (rule prints_accepts) simp_all
  have h12: "\<forall>l \<in> set (takeWhile (\<lambda>l. length l < MaxScanTokenSize) [''Y=2'']).
           \<forall>v'. dropCR l = ''FOO'' @ CHR ''='' # v' \<longrightarrow> syscall_Setenv ?p ''FOO'' v' \<noteq> None"
    by (simp add: dropCR_def MaxScanTokenSize_def)
  show ?thesis
    using C6_last_write_wins [OF h1 h2 h3 h4 h5 h6 h7 h8 h9 h10 h11 h12] .
qed

section \<open>When the scanner gives up\<close>

text \<open>
  C9. Let the output be some complete lines, then a line of \<open>MaxScanTokenSize\<close> bytes
  or more, then anything. The scanner ends with \<open>ErrTooLong\<close>, and \<open>Patch\<close> behaves
  exactly as if the output had ended before that line: it returns success, it has
  processed the lines before and nothing after, and it has logged nothing about the
  scan.
\<close>

theorem C9_scan_failure_is_silent:
  assumes "Getenv patchCommandVar w = cmd" and "cmd \<noteq> []"
    and "cmd_Run p (env w) (shell_cmd p cmd w) = r" and "run_err r = None"
    and "outBuf r = pre @ long @ rest"
    and "pre = [] \<or> last pre = CHR 0x0A"
    and "CHR 0x0A \<notin> set long" and "MaxScanTokenSize \<le> length long"
  shows "serr (snd (scan_loop p (NewScanner (outBuf r))
                      (w\<lparr>trace := trace w @ [Run (shell_cmd p cmd w)]\<rparr>))) = Some ErrTooLong
       \<and> Patch p w =
           (None, apply_lines p (scanned_lines (NewScanner pre))
                    (w\<lparr>trace := trace w @ [Run (shell_cmd p cmd w)]\<rparr>))"
proof -
  have "scanned_lines (NewScanner (outBuf r)) = scanned_lines (NewScanner pre)"
    unfolding assms(5) using assms(6-8) by (rule scanned_lines_stop_at_long_line)
  then have "Patch p w =
           (None, apply_lines p (scanned_lines (NewScanner pre))
                    (w\<lparr>trace := trace w @ [Run (shell_cmd p cmd w)]\<rparr>))"
    using Patch_exit_zero [OF assms(1-4)] by simp
  moreover have "serr (snd (scan_loop p (NewScanner (outBuf r))
                      (w\<lparr>trace := trace w @ [Run (shell_cmd p cmd w)]\<rparr>))) = Some ErrTooLong"
    unfolding assms(5) using assms(6-8) by (rule scan_loop_stops_with_ErrTooLong)
  ultimately show ?thesis by simp
qed

theorem C9_scan_failure_is_silent_witness:
  "Patch (prints (''A=1\<newline>'' @ overlong @ ''\<newline>B=2\<newline>''))
         \<lparr>env = [''PATCH_ENV_COMMAND'' \<mapsto> ''x''], trace = []\<rparr>
     = (None,
        \<lparr>env = [''PATCH_ENV_COMMAND'' \<mapsto> ''x'', ''A'' \<mapsto> ''1''],
         trace = [Run \<lparr>Path = ''/usr/bin/x'', Args = [''x''], Err = None\<rparr>]\<rparr>)"
proof -
  let ?out = "''A=1\<newline>'' @ overlong @ ''\<newline>B=2\<newline>''"
  let ?p = "prints ?out"
  let ?w = "\<lparr>env = [''PATCH_ENV_COMMAND'' \<mapsto> ''x''], trace = []\<rparr>"
  let ?r = "\<lparr>started = True, outBuf = ?out, errBuf = [], run_err = None\<rparr>"
  have h1: "Getenv patchCommandVar ?w = ''x''"
    by (simp add: Getenv_def patchCommandVar_def)
  have h2: "''x'' \<noteq> []" by simp
  have h3: "cmd_Run ?p (env ?w) (shell_cmd ?p ''x'' ?w) = ?r"
    unfolding prints_def by (rule scripted_Run) simp
  have h4: "run_err ?r = None" by simp
  have h5: "outBuf ?r = ''A=1\<newline>'' @ overlong @ ''\<newline>B=2\<newline>''" by simp
  have h6: "''A=1\<newline>'' = [] \<or> last ''A=1\<newline>'' = CHR 0x0A" by simp
  have h7: "CHR 0x0A \<notin> set overlong" by simp
  have h8: "MaxScanTokenSize \<le> length overlong" by simp
  have ls: "scanned_lines (NewScanner ''A=1\<newline>'') = [''A=1'']"
    using scanned_lines_terminated [of "[''A=1'']"]
    by (simp add: MaxScanTokenSize_def dropCR_def)
  have cmd: "shell_cmd ?p ''x'' ?w = \<lparr>Path = ''/usr/bin/x'', Args = [''x''], Err = None\<rparr>"
    unfolding prints_def by (rule x_cmd) simp
  have a: "loop_body ?p (''A'' @ CHR ''='' # ''1'') w' = w'\<lparr>env := (env w')(''A'' \<mapsto> ''1'')\<rparr>" for w'
    by (rule prints_assigns) simp_all
  show ?thesis
    using C9_scan_failure_is_silent [OF h1 h2 h3 h4 h5 h6 h7 h8, THEN conjunct2] a
    by (simp add: ls cmd [simplified])
qed

end
